(* ===== verification/Prelude.thy ===== *)
theory Prelude
  imports Main "HOL-Library.Char_ord" "HOL-Library.List_Lexorder" "HOL-Library.Product_Lexorder"
begin

text \<open>
  Shared vocabulary of the development: identifiers and timestamps, the error
  taxonomy of the persistence layer (spec section 7), the result type
  \<open>error + 'a\<close> with its bind, primary-key lookup in a table held as a list of
  rows, and the generic list lemmas the component theories use.
  The collection \<open>db_simps\<close> gathers the unfolding rules of the constraint
  predicates so that component proofs can say \<open>simp add: db_simps\<close>.
\<close>

type_synonym uuid = nat
type_synonym timestamp = nat
type_synonym json = string

datatype error =
    ValidationError
  | InvalidStateTransition
  | CyclicDependencyError
  | NotFound uuid
  | IntegrityError string

type_synonym 'a result = "error + 'a"

named_theorems db_simps "unfolding rules of the table constraints"

definition rbind :: "'a result \<Rightarrow> ('a \<Rightarrow> 'b result) \<Rightarrow> 'b result" where
  "rbind r f = (case r of Inl e \<Rightarrow> Inl e | Inr a \<Rightarrow> f a)"

lemma rbind_Inl [simp]: "rbind (Inl e) f = Inl e"
  by (simp add: rbind_def)

lemma rbind_Inr [simp]: "rbind (Inr a) f = f a"
  by (simp add: rbind_def)

lemma rbind_eq_Inr_iff [simp]:
  "rbind r f = Inr b \<longleftrightarrow> (\<exists>a. r = Inr a \<and> f a = Inr b)"
  by (cases r) auto

text \<open>A table is a list of rows; \<open>find_key\<close> is a lookup by a key column.\<close>

definition find_key :: "('a \<Rightarrow> 'k) \<Rightarrow> 'k \<Rightarrow> 'a list \<Rightarrow> 'a option" where
  "find_key key k rows = find (\<lambda>r. key r = k) rows"

lemma find_key_Nil [simp]: "find_key key k [] = None"
  by (simp add: find_key_def)

lemma find_key_Cons [simp]:
  "find_key key k (r # rows) = (if key r = k then Some r else find_key key k rows)"
  by (simp add: find_key_def)

lemma find_key_append:
  "find_key key k (xs @ ys) =
     (case find_key key k xs of None \<Rightarrow> find_key key k ys | Some r \<Rightarrow> Some r)"
  by (induction xs) auto

lemma find_key_SomeD [dest]:
  "find_key key k rows = Some r \<Longrightarrow> r \<in> set rows \<and> key r = k"
  by (induction rows) (auto split: if_splits)

lemma find_key_None_iff:
  "find_key key k rows = None \<longleftrightarrow> k \<notin> key ` set rows"
  by (induction rows) auto

lemma find_key_unique:
  "distinct (map key rows) \<Longrightarrow> r \<in> set rows \<Longrightarrow> find_key key (key r) rows = Some r"
  by (induction rows) (auto simp: image_iff)

lemma find_key_in_keys:
  "find_key key k rows = Some r \<Longrightarrow> k \<in> set (map key rows)"
  by (auto dest: find_key_SomeD)

lemma card_Diff_insert_less:
  "finite A \<Longrightarrow> t \<in> A \<Longrightarrow> t \<notin> B \<Longrightarrow> card (A - insert t B) < card (A - B)"
  by (metis Diff_iff Diff_insert card_Diff1_less finite_Diff)

text \<open>Replacing the row with a given key, as an SQL UPDATE by primary key.\<close>

definition replace_key :: "('a \<Rightarrow> 'k) \<Rightarrow> 'a \<Rightarrow> 'a list \<Rightarrow> 'a list" where
  "replace_key key r rows = map (\<lambda>x. if key x = key r then r else x) rows"

lemma map_key_replace_key [simp]:
  "map key (replace_key key r rows) = map key rows"
  by (induction rows) (auto simp: replace_key_def)

lemma length_replace_key [simp]: "length (replace_key key r rows) = length rows"
  by (simp add: replace_key_def)

lemma set_replace_key:
  "key r \<in> key ` set rows \<Longrightarrow>
     set (replace_key key r rows) = insert r {x \<in> set rows. key x \<noteq> key r}"
  by (auto simp: replace_key_def)

lemma in_set_replace_key_cases:
  "y \<in> set (replace_key key r rows) \<Longrightarrow>
     (y = r \<and> key r \<in> key ` set rows) \<or> (y \<in> set rows \<and> key y \<noteq> key r)"
  by (induction rows) (auto simp: replace_key_def)

lemma distinct_map_replace_key:
  assumes "distinct (map g tbl)" and "distinct (map key tbl)"
    and "g r \<notin> g ` {x \<in> set tbl. key x \<noteq> key r}"
  shows "distinct (map g (replace_key key r tbl))"
  using assms
proof (induction tbl)
  case Nil
  then show ?case by (simp add: replace_key_def)
next
  case (Cons x tbl)
  have IH: "distinct (map g (replace_key key r tbl))"
    using Cons.IH Cons.prems by auto
  have hd: "replace_key key r (x # tbl) = (if key x = key r then r else x) # replace_key key r tbl"
    by (simp add: replace_key_def)
  have notin: "g (if key x = key r then r else x) \<noteq> g y" if y: "y \<in> set (replace_key key r tbl)" for y
  proof (cases "key x = key r")
    case True
    with Cons.prems(2) have "key r \<notin> key ` set tbl" by auto
    with in_set_replace_key_cases [OF y] have "y \<in> set tbl" "key y \<noteq> key r" by auto
    with Cons.prems(3) True show ?thesis by auto
  next
    case False
    from in_set_replace_key_cases [OF y] show ?thesis
    proof
      assume "y = r \<and> key r \<in> key ` set tbl"
      have "x \<in> {z \<in> set (x # tbl). key z \<noteq> key r}" using False by simp
      then have "g x \<noteq> g r" using Cons.prems(3) by (metis imageI)
      then show ?thesis using \<open>y = r \<and> _\<close> False by simp
    next
      assume "y \<in> set tbl \<and> key y \<noteq> key r"
      then show ?thesis using Cons.prems(1) False by auto
    qed
  qed
  have "g (if key x = key r then r else x) \<notin> g ` set (replace_key key r tbl)"
    using notin by blast
  with IH show ?case unfolding hd by simp
qed

lemma find_key_replace_key:
  "find_key key k (replace_key key r rows) =
     (if k = key r \<and> k \<in> key ` set rows then Some r else find_key key k rows)"
  by (induction rows) (auto simp: replace_key_def)

end
