(* ===== verification/Revisions.thy ===== *)
theory Revisions
  imports Prelude
begin

text \<open>
  The \<open>transformation_revisions\<close> table of
  \<open>src/runtime/hetdesrun/persistence/dbmodels.py\<close> (class
  \<open>TransformationRevisionDBModel\<close>): the row type as a record, the
  enumerations \<open>State\<close> and \<open>Type\<close> it stores (defined in
  \<open>hetdesrun.utils\<close>), the three table constraints the class declares (primary
  key \<open>id\<close>, the unique pair \<open>(revision_group_id, version_tag)\<close> and the check
  constraint that exactly one of \<open>component_code\<close> and \<open>workflow_content\<close> is
  non-NULL), and what the database does on INSERT and on UPDATE by primary key:
  reject the statement with an \<open>IntegrityError\<close> naming the violated constraint, or
  return the new table. The lemmas show that both statements keep the table
  well-formed and characterise every branch.
\<close>

datatype State = DRAFT | RELEASED | DISABLED

datatype Type = COMPONENT | WORKFLOW

text \<open>
  An operator of a workflow's content: an instance of another transformation
  revision, with its own operator id. The JSON column \<open>workflow_content\<close> is
  modelled by the list of its operators, the only part of it the nesting closure
  reads; links, constants and positions are not modelled.
\<close>

record operator =
  op_id :: uuid
  op_transformation_id :: uuid

record transformation_revision =
  tr_id :: uuid
  revision_group_id :: uuid
  name :: string
  description :: string
  category :: string
  version_tag :: string
  state :: State
  type :: Type
  documentation :: string
  workflow_content :: "operator list option"
  component_code :: "string option"
  io_interface :: json
  test_wiring :: json
  released_timestamp :: "timestamp option"
  disabled_timestamp :: "timestamp option"

type_synonym tr_table = "transformation_revision list"

abbreviation find_tr :: "tr_table \<Rightarrow> uuid \<Rightarrow> transformation_revision option" where
  "find_tr tbl i \<equiv> find_key tr_id i tbl"

subsection \<open>Constraints\<close>

text \<open>The key of \<open>_revision_group_id_plus_version_tag_uc\<close>.\<close>

definition group_tag :: "transformation_revision \<Rightarrow> uuid \<times> string" where
  "group_tag r = (revision_group_id r, version_tag r)"

text \<open>
  \<open>_exactly_one_of_component_code_or_workflow_content_null_cc\<close>, with the SQL
  \<open>CASE\<close> arithmetic written out.
\<close>

definition exactly_one_of_content_cc :: "transformation_revision \<Rightarrow> bool" where
  [db_simps]: "exactly_one_of_content_cc r \<longleftrightarrow>
     (if component_code r = None then 0 else 1) +
     (if workflow_content r = None then 0 else 1) = (1::int)"

definition tr_table_ok :: "tr_table \<Rightarrow> bool" where
  "tr_table_ok tbl \<longleftrightarrow>
     distinct (map tr_id tbl) \<and>
     distinct (map group_tag tbl) \<and>
     (\<forall>r \<in> set tbl. exactly_one_of_content_cc r)"

subsection \<open>Statements\<close>

text \<open>
  The order in which the database reports a violation: CHECK constraints are
  evaluated on the row before it is stored, the primary-key and unique indexes when
  it is entered into them (PostgreSQL and SQLite alike). An UPDATE of an id that is
  not stored changes no row; the callers report that as \<open>NotFound\<close>.
\<close>

definition insert_tr :: "tr_table \<Rightarrow> transformation_revision \<Rightarrow> tr_table result" where
  "insert_tr tbl r =
     (if \<not> exactly_one_of_content_cc r
      then Inl (IntegrityError ''_exactly_one_of_component_code_or_workflow_content_null_cc'')
      else if tr_id r \<in> set (map tr_id tbl)
      then Inl (IntegrityError ''transformation_revisions_pkey'')
      else if group_tag r \<in> set (map group_tag tbl)
      then Inl (IntegrityError ''_revision_group_id_plus_version_tag_uc'')
      else Inr (tbl @ [r]))"

definition update_tr :: "tr_table \<Rightarrow> transformation_revision \<Rightarrow> tr_table result" where
  "update_tr tbl r =
     (if tr_id r \<notin> set (map tr_id tbl)
      then Inl (NotFound (tr_id r))
      else if \<not> exactly_one_of_content_cc r
      then Inl (IntegrityError ''_exactly_one_of_component_code_or_workflow_content_null_cc'')
      else if group_tag r \<in> set (map group_tag (filter (\<lambda>x. tr_id x \<noteq> tr_id r) tbl))
      then Inl (IntegrityError ''_revision_group_id_plus_version_tag_uc'')
      else Inr (replace_key tr_id r tbl))"

subsection \<open>Lemmas\<close>

text \<open>
  C5. The check constraint's \<open>CASE\<close> arithmetic holds exactly when one of
  \<open>component_code\<close> and \<open>workflow_content\<close> is NULL and the other is not.
\<close>

lemma exactly_one_of_content_cc_iff:
  "exactly_one_of_content_cc r \<longleftrightarrow> (component_code r = None) \<noteq> (workflow_content r = None)"
  by (simp add: exactly_one_of_content_cc_def)

lemma insert_tr_Inr_iff:
  "insert_tr tbl r = Inr tbl' \<longleftrightarrow>
     tr_id r \<notin> tr_id ` set tbl \<and> exactly_one_of_content_cc r \<and>
     group_tag r \<notin> group_tag ` set tbl \<and> tbl' = tbl @ [r]"
  by (auto simp: insert_tr_def)

lemma insert_tr_preserves_ok:
  assumes "tr_table_ok tbl" and "insert_tr tbl r = Inr tbl'"
  shows "tr_table_ok tbl'"
  using assms by (auto simp: tr_table_ok_def insert_tr_Inr_iff)

lemma update_tr_Inr_iff:
  "update_tr tbl r = Inr tbl' \<longleftrightarrow>
     tr_id r \<in> tr_id ` set tbl \<and> exactly_one_of_content_cc r \<and>
     group_tag r \<notin> group_tag ` {x \<in> set tbl. tr_id x \<noteq> tr_id r} \<and>
     tbl' = replace_key tr_id r tbl"
  unfolding update_tr_def by (simp add: image_iff) blast

lemma update_tr_preserves_ok:
  assumes "tr_table_ok tbl" and "update_tr tbl r = Inr tbl'"
  shows "tr_table_ok tbl'"
proof -
  from assms(2) have r: "exactly_one_of_content_cc r"
    "group_tag r \<notin> group_tag ` {x \<in> set tbl. tr_id x \<noteq> tr_id r}"
    and tbl': "tbl' = replace_key tr_id r tbl"
    by (auto simp: update_tr_Inr_iff)
  have "distinct (map group_tag tbl')"
    using assms(1) r(2) unfolding tbl' tr_table_ok_def by (blast intro: distinct_map_replace_key)
  moreover have "\<forall>x \<in> set tbl'. exactly_one_of_content_cc x"
    using assms(1) r(1) unfolding tbl' tr_table_ok_def by (blast dest: in_set_replace_key_cases)
  ultimately show ?thesis
    using assms(1) tbl' by (simp add: tr_table_ok_def)
qed

lemma update_tr_same_key:
  assumes "tr_table_ok tbl" and "r \<in> set tbl" and "tr_id r' = tr_id r"
    and "group_tag r' = group_tag r" and "exactly_one_of_content_cc r'"
  shows "update_tr tbl r' = Inr (replace_key tr_id r' tbl)"
proof -
  have "group_tag r' \<notin> group_tag ` {x \<in> set tbl. tr_id x \<noteq> tr_id r'}"
  proof
    assume "group_tag r' \<in> group_tag ` {x \<in> set tbl. tr_id x \<noteq> tr_id r'}"
    then obtain x where x: "x \<in> set tbl" "tr_id x \<noteq> tr_id r" "group_tag x = group_tag r"
      using assms(3,4) by auto
    from assms(1) have "inj_on group_tag (set tbl)"
      by (simp add: tr_table_ok_def distinct_map)
    with x assms(2) have "x = r" by (auto dest: inj_onD)
    with x(2) show False by simp
  qed
  with assms show ?thesis
    by (auto simp: update_tr_Inr_iff)
qed

text \<open>
  C9. After a successful INSERT, looking the new id up returns the inserted row, and
  every other id resolves as before.
\<close>

lemma find_tr_insert:
  "insert_tr tbl r = Inr tbl' \<Longrightarrow>
     find_tr tbl' i = (if i = tr_id r then Some r else find_tr tbl i)"
proof -
  assume "insert_tr tbl r = Inr tbl'"
  then have "tbl' = tbl @ [r]" and "find_tr tbl (tr_id r) = None"
    by (auto simp: insert_tr_Inr_iff find_key_None_iff)
  then show ?thesis
    by (auto simp: find_key_append split: option.splits)
qed

lemma find_tr_update:
  "update_tr tbl r = Inr tbl' \<Longrightarrow>
     find_tr tbl' i = (if i = tr_id r then Some r else find_tr tbl i)"
  by (auto simp: update_tr_Inr_iff find_key_replace_key)

lemma ids_update_tr:
  "update_tr tbl r = Inr tbl' \<Longrightarrow> map tr_id tbl' = map tr_id tbl"
  by (auto simp: update_tr_Inr_iff)

text \<open>
  C8. In a well-formed table, inserting a fresh id whose pair
  \<open>(revision_group_id, version_tag)\<close> is already taken is rejected by
  \<open>_revision_group_id_plus_version_tag_uc\<close>.
\<close>

lemma insert_tr_group_tag_violation:
  assumes "tr_table_ok tbl" and "r \<in> set tbl" and "tr_id r' \<notin> set (map tr_id tbl)"
    and "exactly_one_of_content_cc r'" and "group_tag r' = group_tag r"
  shows "insert_tr tbl r' = Inl (IntegrityError ''_revision_group_id_plus_version_tag_uc'')"
  using assms by (force simp: insert_tr_def)

text \<open>
  C10. An UPDATE that gives a row the \<open>(revision_group_id, version_tag)\<close> pair of
  another row is rejected by \<open>_revision_group_id_plus_version_tag_uc\<close>.
\<close>

lemma update_tr_group_tag_violation:
  assumes "tr_table_ok tbl" and "x \<in> set tbl" and "tr_id r \<in> set (map tr_id tbl)"
    and "tr_id x \<noteq> tr_id r" and "exactly_one_of_content_cc r" and "group_tag r = group_tag x"
  shows "update_tr tbl r = Inl (IntegrityError ''_revision_group_id_plus_version_tag_uc'')"
  using assms by (force simp: update_tr_def)

text \<open>
  C17. INSERT and UPDATE by primary key both keep the table well-formed: ids unique,
  \<open>(revision_group_id, version_tag)\<close> pairs unique, and every row with exactly one of
  \<open>component_code\<close> and \<open>workflow_content\<close>.
\<close>

lemma tr_writes_preserve_ok:
  assumes "tr_table_ok tbl"
  shows "(insert_tr tbl r = Inr tbl' \<longrightarrow> tr_table_ok tbl') \<and>
    (update_tr tbl r = Inr tbl'' \<longrightarrow> tr_table_ok tbl'')"
  using assms insert_tr_preserves_ok update_tr_preserves_ok by blast

text \<open>
  C21. An INSERT of a row with both \<open>component_code\<close> and \<open>workflow_content\<close>
  NULL, or both set, is rejected by the check constraint, whatever the table holds.
\<close>

lemma insert_tr_content_violation:
  assumes "(component_code r = None) = (workflow_content r = None)"
  shows "insert_tr tbl r =
    Inl (IntegrityError ''_exactly_one_of_component_code_or_workflow_content_null_cc'')"
  using assms by (auto simp: insert_tr_def exactly_one_of_content_cc_def)

text \<open>
  C25. A row just inserted can be saved again with other non-key columns: an UPDATE
  that keeps its id and its \<open>(revision_group_id, version_tag)\<close> and meets the check
  constraint succeeds, and the table holds the new row in place of the inserted one.
\<close>

lemma insert_then_update_tr:
  assumes ok: "tr_table_ok tbl" and ins: "insert_tr tbl r = Inr tbl'"
    and key: "tr_id r' = tr_id r" and tag: "group_tag r' = group_tag r"
    and cc: "exactly_one_of_content_cc r'"
  shows "update_tr tbl' r' = Inr (tbl @ [r'])"
proof -
  from ins have tbl': "tbl' = tbl @ [r]" and fresh: "tr_id r \<notin> tr_id ` set tbl"
    by (auto simp: insert_tr_Inr_iff)
  have "tr_table_ok tbl'" using ok ins by (rule insert_tr_preserves_ok)
  then have "update_tr tbl' r' = Inr (replace_key tr_id r' tbl')"
    using key tag cc tbl' by (intro update_tr_same_key) auto
  moreover have "replace_key tr_id r' tbl' = tbl @ [r']"
    using fresh key unfolding tbl' replace_key_def by (induction tbl) auto
  ultimately show ?thesis by simp
qed
end
