(* ===== verification/Nestings.thy ===== *)
theory Nestings
  imports Revisions
begin

text \<open>
  The closure table \<open>nestings\<close> of
  \<open>src/runtime/hetdesrun/persistence/dbmodels.py\<close> (class \<open>NestingDBModel\<close>)
  and the result tuple \<open>Descendant\<close>. A row records that the workflow
  \<open>workflow_id\<close> reaches, through its direct child operator
  \<open>via_operator_id\<close> (an instance of \<open>via_transformation_id\<close>), the operator
  \<open>nested_operator_id\<close> (an instance of \<open>nested_transformation_id\<close>) at
  nesting depth \<open>depth\<close>. The column \<open>depth\<close> is an SQL \<open>Integer\<close> and is
  kept as \<open>int\<close>, so that the check constraint \<open>depth > 0\<close> has something to
  reject. Modelled are the composite primary key, the two check constraints with
  their \<open>CASE\<close> arithmetic, the three foreign keys into
  \<open>transformation_revisions\<close>, and the INSERT statement that enforces them.
  The lemmas show that the two check constraints together say exactly
  "depth is positive, and depth 1 holds precisely for the rows whose via identity is
  their nested identity" (spec section 8), and that inserting keeps the table
  well-formed.
\<close>

record nesting =
  workflow_id :: uuid
  via_transformation_id :: uuid
  via_operator_id :: uuid
  depth :: int
  nested_transformation_id :: uuid
  nested_operator_id :: uuid

type_synonym nesting_table = "nesting list"

datatype descendant = Descendant (d_depth: int) (d_transformation_id: uuid) (d_operator_id: uuid)

subsection \<open>Constraints\<close>

text \<open>The composite primary key: the columns declared with \<open>primary_key=True\<close>.\<close>

definition nesting_pk :: "nesting \<Rightarrow> uuid \<times> uuid \<times> int \<times> uuid" where
  "nesting_pk n = (workflow_id n, via_operator_id n, depth n, nested_operator_id n)"

definition depth_natural_number_cc :: "nesting \<Rightarrow> bool" where
  [db_simps]: "depth_natural_number_cc n \<longleftrightarrow> depth n > 0"

definition via_ids_equal_nested_ids_cc :: "nesting \<Rightarrow> bool" where
  [db_simps]: "via_ids_equal_nested_ids_cc n \<longleftrightarrow>
     (if depth n > 1 then 1 else 0) +
     (if via_transformation_id n = nested_transformation_id n then 1 else 0) *
     (if via_operator_id n = nested_operator_id n then 1 else 0) = (1::int)"

text \<open>The three \<open>ForeignKey(TransformationRevisionDBModel.id)\<close> columns.\<close>

definition nesting_fk :: "tr_table \<Rightarrow> nesting \<Rightarrow> bool" where
  [db_simps]: "nesting_fk trs n \<longleftrightarrow>
     workflow_id n \<in> set (map tr_id trs) \<and>
     via_transformation_id n \<in> set (map tr_id trs) \<and>
     nested_transformation_id n \<in> set (map tr_id trs)"

definition nesting_row_ok :: "tr_table \<Rightarrow> nesting \<Rightarrow> bool" where
  "nesting_row_ok trs n \<longleftrightarrow>
     depth_natural_number_cc n \<and> via_ids_equal_nested_ids_cc n \<and> nesting_fk trs n"

definition nesting_table_ok :: "tr_table \<Rightarrow> nesting_table \<Rightarrow> bool" where
  "nesting_table_ok trs tbl \<longleftrightarrow>
     distinct (map nesting_pk tbl) \<and> (\<forall>n \<in> set tbl. nesting_row_ok trs n)"

subsection \<open>Statements\<close>

text \<open>
  The database evaluates the CHECK constraints first (PostgreSQL in the order of their
  names, \<open>_depth...\<close> before \<open>_via...\<close>), then the primary-key index, and the
  foreign keys last, after the row is stored.
\<close>

definition insert_nesting :: "tr_table \<Rightarrow> nesting_table \<Rightarrow> nesting \<Rightarrow> nesting_table result" where
  "insert_nesting trs tbl n =
     (if \<not> depth_natural_number_cc n
      then Inl (IntegrityError ''_depth_natural_number_cc'')
      else if \<not> via_ids_equal_nested_ids_cc n
      then Inl (IntegrityError ''_via_ids_equal_nested_ids_for_direct_nesting_cc'')
      else if nesting_pk n \<in> set (map nesting_pk tbl)
      then Inl (IntegrityError ''nestings_pkey'')
      else if \<not> nesting_fk trs n
      then Inl (IntegrityError ''nestings_fkey'')
      else Inr (tbl @ [n]))"

text \<open>Adding several rows in one session: the first rejected row aborts the flush.\<close>

fun insert_nestings :: "tr_table \<Rightarrow> nesting_table \<Rightarrow> nesting list \<Rightarrow> nesting_table result" where
  "insert_nestings trs tbl [] = Inr tbl"
| "insert_nestings trs tbl (n # ns) =
     (case insert_nesting trs tbl n of
        Inl e \<Rightarrow> Inl e
      | Inr tbl' \<Rightarrow> insert_nestings trs tbl' ns)"

text \<open>
  The three \<open>relationship\<close> attributes: navigating from a row to the revision a
  foreign key names (\<open>None\<close> where the ORM would load nothing).
\<close>

definition nesting_workflow :: "tr_table \<Rightarrow> nesting \<Rightarrow> transformation_revision option" where
  "nesting_workflow trs n = find_tr trs (workflow_id n)"

definition nesting_via_transformation :: "tr_table \<Rightarrow> nesting \<Rightarrow> transformation_revision option" where
  "nesting_via_transformation trs n = find_tr trs (via_transformation_id n)"

definition nesting_nested_transformation :: "tr_table \<Rightarrow> nesting \<Rightarrow> transformation_revision option" where
  "nesting_nested_transformation trs n = find_tr trs (nested_transformation_id n)"

text \<open>Reading the rows back as the result tuple of the closure queries.\<close>

definition to_descendant :: "nesting \<Rightarrow> descendant" where
  "to_descendant n = Descendant (depth n) (nested_transformation_id n) (nested_operator_id n)"

subsection \<open>Lemmas\<close>

text \<open>
  C4. The two check constraints of \<open>nestings\<close> hold together exactly when the
  depth is positive and the row is a direct nesting (depth 1) precisely when its via
  identity equals its nested identity.
\<close>

lemma nesting_checks_iff:
  "depth_natural_number_cc n \<and> via_ids_equal_nested_ids_cc n \<longleftrightarrow>
     0 < depth n \<and>
     (depth n = 1 \<longleftrightarrow>
        (via_transformation_id n, via_operator_id n) =
        (nested_transformation_id n, nested_operator_id n))"
  by (auto simp: db_simps)

lemma insert_nesting_Inr_iff:
  "insert_nesting trs tbl n = Inr tbl' \<longleftrightarrow>
     nesting_pk n \<notin> nesting_pk ` set tbl \<and> nesting_row_ok trs n \<and> tbl' = tbl @ [n]"
  by (auto simp: insert_nesting_def nesting_row_ok_def)

lemma insert_nesting_preserves_ok:
  "nesting_table_ok trs tbl \<Longrightarrow> insert_nesting trs tbl n = Inr tbl' \<Longrightarrow>
     nesting_table_ok trs tbl'"
  by (auto simp: nesting_table_ok_def insert_nesting_Inr_iff)

lemma insert_nestings_Inr_iff:
  "insert_nestings trs tbl ns = Inr tbl' \<longleftrightarrow>
     distinct (map nesting_pk ns) \<and> nesting_pk ` set ns \<inter> nesting_pk ` set tbl = {} \<and>
     (\<forall>n \<in> set ns. nesting_row_ok trs n) \<and> tbl' = tbl @ ns"
proof (induction ns arbitrary: tbl)
  case Nil
  then show ?case by auto
next
  case (Cons n ns)
  show ?case
  proof (cases "insert_nesting trs tbl n")
    case (Inl e)
    then have "\<not> (nesting_pk n \<notin> nesting_pk ` set tbl \<and> nesting_row_ok trs n)"
      by (auto simp: insert_nesting_def nesting_row_ok_def split: if_splits)
    with Inl show ?thesis by auto
  next
    case (Inr t)
    then have "insert_nestings trs tbl (n # ns) = insert_nestings trs t ns"
      by simp
    moreover from Inr have "t = tbl @ [n]"
      and n: "nesting_pk n \<notin> nesting_pk ` set tbl" "nesting_row_ok trs n"
      by (auto simp: insert_nesting_Inr_iff)
    ultimately have step: "insert_nestings trs tbl (n # ns) = insert_nestings trs (tbl @ [n]) ns"
      by simp
    show ?thesis
      unfolding step Cons.IH using n by auto
  qed
qed

lemma insert_nestings_preserves_ok:
  "nesting_table_ok trs tbl \<Longrightarrow> insert_nestings trs tbl ns = Inr tbl' \<Longrightarrow>
     nesting_table_ok trs tbl'"
  by (auto simp: nesting_table_ok_def insert_nestings_Inr_iff)

lemma nesting_fk_mono:
  "set (map tr_id trs) \<subseteq> set (map tr_id trs') \<Longrightarrow> nesting_fk trs n \<Longrightarrow> nesting_fk trs' n"
  by (auto simp: nesting_fk_def)

lemma nesting_table_ok_mono:
  "set (map tr_id trs) \<subseteq> set (map tr_id trs') \<Longrightarrow> nesting_table_ok trs tbl \<Longrightarrow>
     nesting_table_ok trs' tbl"
  by (auto simp: nesting_table_ok_def nesting_row_ok_def nesting_fk_def)

lemma insert_nestings_errors:
  "\<forall>n \<in> set ns. nesting_row_ok trs n \<Longrightarrow> insert_nestings trs tbl ns = Inl e \<Longrightarrow>
     e = IntegrityError ''nestings_pkey''"
proof (induction ns arbitrary: tbl)
  case Nil
  then show ?case by simp
next
  case (Cons n ns)
  show ?case
  proof (cases "insert_nesting trs tbl n")
    case (Inl e')
    with Cons.prems show ?thesis
      by (auto simp: insert_nesting_def nesting_row_ok_def split: if_splits)
  next
    case (Inr tbl')
    with Cons.prems Cons.IH [of tbl'] show ?thesis by simp
  qed
qed

text \<open>
  C16. In a nestings table that meets its constraints, the three relationships of
  every row resolve, each to the revision whose id the foreign key holds.
\<close>

lemma nesting_relationships_resolve:
  assumes "nesting_table_ok trs tbl" and "n \<in> set tbl"
  shows "(\<exists>w. nesting_workflow trs n = Some w \<and> tr_id w = workflow_id n) \<and>
    (\<exists>v. nesting_via_transformation trs n = Some v \<and> tr_id v = via_transformation_id n) \<and>
    (\<exists>m. nesting_nested_transformation trs n = Some m \<and> tr_id m = nested_transformation_id n)"
proof -
  have fk: "nesting_fk trs n"
    using assms by (auto simp: nesting_table_ok_def nesting_row_ok_def)
  have resolves: "k \<in> set (map tr_id trs) \<Longrightarrow> \<exists>x. find_tr trs k = Some x \<and> tr_id x = k" for k
    by (cases "find_tr trs k") (auto simp: find_key_None_iff)
  from fk show ?thesis
    unfolding nesting_fk_def nesting_workflow_def nesting_via_transformation_def
      nesting_nested_transformation_def
    using resolves by blast
qed

text \<open>
  C18. An INSERT of a row with a positive depth, whose depth says direct nesting
  exactly when its via ids differ from its nested ids, is rejected by
  \<open>_via_ids_equal_nested_ids_for_direct_nesting_cc\<close>, whatever the table holds.
\<close>

lemma insert_nesting_via_mismatch:
  assumes "0 < depth n"
    and "(depth n = 1) \<noteq>
      ((via_transformation_id n, via_operator_id n) = (nested_transformation_id n, nested_operator_id n))"
  shows "insert_nesting trs tbl n =
    Inl (IntegrityError ''_via_ids_equal_nested_ids_for_direct_nesting_cc'')"
  using assms by (auto simp: insert_nesting_def db_simps)

text \<open>
  C19. An INSERT of a row that meets the key and both check constraints but names a
  revision id that is not in \<open>transformation_revisions\<close> in one of its three
  foreign-key columns is rejected by the foreign key.
\<close>

lemma insert_nesting_fk_violation:
  assumes "nesting_pk n \<notin> set (map nesting_pk tbl)"
    and "depth_natural_number_cc n" and "via_ids_equal_nested_ids_cc n"
    and "workflow_id n \<notin> set (map tr_id trs) \<or> via_transformation_id n \<notin> set (map tr_id trs) \<or>
         nested_transformation_id n \<notin> set (map tr_id trs)"
  shows "insert_nesting trs tbl n = Inl (IntegrityError ''nestings_fkey'')"
  using assms by (auto simp: insert_nesting_def nesting_fk_def)

text \<open>
  C20. A session adding a list of nestings rows fails exactly when the rows repeat a
  primary key, clash with a key already in the table, or one of them breaks a check
  constraint or a foreign key.
\<close>

lemma insert_nestings_fails_iff:
  "isl (insert_nestings trs tbl ns) \<longleftrightarrow>
     \<not> (distinct (map nesting_pk ns) \<and> nesting_pk ` set ns \<inter> nesting_pk ` set tbl = {} \<and>
        (\<forall>n \<in> set ns. nesting_row_ok trs n))"
proof (cases "insert_nestings trs tbl ns")
  case (Inl e)
  then show ?thesis using insert_nestings_Inr_iff [of trs tbl ns] by auto
next
  case (Inr t)
  with insert_nestings_Inr_iff [of trs tbl ns t]
  have "distinct (map nesting_pk ns) \<and> nesting_pk ` set ns \<inter> nesting_pk ` set tbl = {} \<and>
      (\<forall>n \<in> set ns. nesting_row_ok trs n)"
    by blast
  with Inr show ?thesis by simp
qed

text \<open>
  C22. An INSERT of a row with a depth below one is rejected by
  \<open>_depth_natural_number_cc\<close>, whatever its other columns and the table hold.
\<close>

lemma insert_nesting_depth_violation:
  assumes "depth n < 1"
  shows "insert_nesting trs tbl n = Inl (IntegrityError ''_depth_natural_number_cc'')"
  using assms by (simp add: insert_nesting_def depth_natural_number_cc_def)

text \<open>
  C23. An INSERT of a row that meets both check constraints and whose
  \<open>(workflow_id, via_operator_id, depth, nested_operator_id)\<close> is already in the
  table is rejected by the primary key, before the foreign keys are looked at.
\<close>

lemma insert_nesting_pk_violation:
  assumes "depth_natural_number_cc n" and "via_ids_equal_nested_ids_cc n"
    and "m \<in> set tbl" and "workflow_id n = workflow_id m" and "via_operator_id n = via_operator_id m"
    and "depth n = depth m" and "nested_operator_id n = nested_operator_id m"
  shows "insert_nesting trs tbl n = Inl (IntegrityError ''nestings_pkey'')"
  using assms by (force simp: insert_nesting_def nesting_pk_def)

end
