(* ===== verification/Closure.thy ===== *)
theory Closure
  imports Nestings
begin

text \<open>
  The Nesting Closure Maintainer (spec section 4.2). Its code is not under
  \<open>src/\<close>; it is modelled from the spec. \<open>nested_of\<close> and \<open>nested_ops\<close> are the
  depth-first traversal below one transformation revision: they return every
  operator reachable inside it with its depth relative to it, and they carry the
  path of revisions being expanded, so that meeting a revision already on the path
  is the \<open>CyclicDependencyError\<close> and an operator whose revision is not stored is
  \<open>NotFound\<close>. \<open>closure_rows\<close> turns the traversal below each direct child of
  a workflow into \<open>nestings\<close> rows, and \<open>rebuild_nesting\<close> replaces the
  workflow's rows by them through the INSERT of \<open>Nestings\<close>, all or nothing.
  The inductive predicate \<open>nests\<close> is the abstract specification: the
  reachability relation of the spec, read off the stored contents.
\<close>

definition content_of :: "transformation_revision \<Rightarrow> operator list" where
  "content_of r = (case workflow_content r of None \<Rightarrow> [] | Some ops \<Rightarrow> ops)"

text \<open>
  Termination: expanding a revision puts a stored id that was not on the path onto
  it, so the number of stored ids off the path falls; between expansions the
  operator list shrinks.
\<close>

definition unexpanded :: "tr_table \<times> uuid list \<times> uuid + tr_table \<times> uuid list \<times> operator list \<Rightarrow> nat" where
  "unexpanded x = (case x of
      Inl (trs, path, t) \<Rightarrow> card (set (map tr_id trs) - set path)
    | Inr (trs, path, ops) \<Rightarrow> card (set (map tr_id trs) - set path))"

function nested_of :: "tr_table \<Rightarrow> uuid list \<Rightarrow> uuid \<Rightarrow> (int \<times> operator) list result"
  and nested_ops :: "tr_table \<Rightarrow> uuid list \<Rightarrow> operator list \<Rightarrow> (int \<times> operator) list result"
where
  "nested_of trs path t =
     (if t \<in> set path then Inl CyclicDependencyError
      else case find_tr trs t of
        None \<Rightarrow> Inl (NotFound t)
      | Some r \<Rightarrow> nested_ops trs (t # path) (content_of r))"
| "nested_ops trs path [] = Inr []"
| "nested_ops trs path (opr # oprs) =
     (case nested_of trs path (op_transformation_id opr) of
        Inl e \<Rightarrow> Inl e
      | Inr ds \<Rightarrow>
          (case nested_ops trs path oprs of
             Inl e \<Rightarrow> Inl e
           | Inr es \<Rightarrow> Inr ((1, opr) # map (\<lambda>(d, n). (d + 1, n)) ds @ es)))"
  by pat_completeness auto

termination
  by (relation "measures [unexpanded,
        \<lambda>x. case x of Inl _ \<Rightarrow> 0 | Inr (_, _, ops) \<Rightarrow> Suc (length ops)]")
     (auto simp: unexpanded_def intro!: card_Diff_insert_less dest!: find_key_in_keys)

definition mk_nesting :: "uuid \<Rightarrow> operator \<Rightarrow> int \<Rightarrow> operator \<Rightarrow> nesting" where
  "mk_nesting w via d n =
     \<lparr>workflow_id = w,
      via_transformation_id = op_transformation_id via, via_operator_id = op_id via,
      depth = d,
      nested_transformation_id = op_transformation_id n, nested_operator_id = op_id n\<rparr>"

fun closure_rows :: "tr_table \<Rightarrow> uuid \<Rightarrow> operator list \<Rightarrow> nesting list result" where
  "closure_rows trs w [] = Inr []"
| "closure_rows trs w (c # cs) =
     (case nested_of trs [w] (op_transformation_id c) of
        Inl e \<Rightarrow> Inl e
      | Inr ds \<Rightarrow>
          (case closure_rows trs w cs of
             Inl e \<Rightarrow> Inl e
           | Inr rows \<Rightarrow>
               Inr (mk_nesting w c 1 c # map (\<lambda>(d, n). mk_nesting w c (d + 1) n) ds @ rows)))"

definition rebuild_nesting :: "tr_table \<Rightarrow> nesting_table \<Rightarrow> uuid \<Rightarrow> nesting_table result" where
  "rebuild_nesting trs tbl w =
     (case find_tr trs w of
        None \<Rightarrow> Inl (NotFound w)
      | Some r \<Rightarrow>
          rbind (closure_rows trs w (content_of r))
            (\<lambda>rows. insert_nestings trs (filter (\<lambda>n. workflow_id n \<noteq> w) tbl) rows))"

definition descendants :: "nesting_table \<Rightarrow> uuid \<Rightarrow> descendant list" where
  "descendants tbl w = map to_descendant (filter (\<lambda>n. workflow_id n = w) tbl)"

definition ancestors :: "nesting_table \<Rightarrow> uuid \<Rightarrow> uuid list" where
  "ancestors tbl t =
     remdups (map workflow_id (filter (\<lambda>n. nested_transformation_id n = t) tbl))"

definition desc_of :: "int \<times> operator \<Rightarrow> descendant" where
  "desc_of x = (case x of (d, n) \<Rightarrow> Descendant d (op_transformation_id n) (op_id n))"

definition refs_closed :: "tr_table \<Rightarrow> bool" where
  "refs_closed trs \<longleftrightarrow>
     (\<forall>r \<in> set trs. \<forall>c \<in> set (content_of r). op_transformation_id c \<in> set (map tr_id trs))"

subsection \<open>Specification: reachability in the stored contents\<close>

inductive nests :: "tr_table \<Rightarrow> uuid \<Rightarrow> int \<Rightarrow> operator \<Rightarrow> bool" where
  direct: "find_tr trs t = Some r \<Longrightarrow> c \<in> set (content_of r) \<Longrightarrow> nests trs t 1 c"
| deeper: "find_tr trs t = Some r \<Longrightarrow> c \<in> set (content_of r) \<Longrightarrow>
             nests trs (op_transformation_id c) d n \<Longrightarrow> nests trs t (d + 1) n"

lemma nests_iff:
  "find_tr trs t = Some r \<Longrightarrow>
     nests trs t d n \<longleftrightarrow>
     (\<exists>c \<in> set (content_of r).
        (d = 1 \<and> n = c) \<or> (\<exists>d'. d = d' + 1 \<and> nests trs (op_transformation_id c) d' n))"
  by (subst nests.simps) auto

subsection \<open>The traversal\<close>

declare nested_of.simps [simp del]

lemma nested_of_Inr_iff:
  "nested_of trs p t = Inr ds \<longleftrightarrow>
     t \<notin> set p \<and> (\<exists>r. find_tr trs t = Some r \<and> nested_ops trs (t # p) (content_of r) = Inr ds)"
  by (auto simp: nested_of.simps split: option.splits)

lemma nested_ops_Cons_Inr_iff:
  "nested_ops trs p (c # cs) = Inr ds \<longleftrightarrow>
     (\<exists>ds1 es. nested_of trs p (op_transformation_id c) = Inr ds1 \<and> nested_ops trs p cs = Inr es \<and>
        ds = (1, c) # map (\<lambda>(d, n). (d + 1, n)) ds1 @ es)"
  by (auto split: sum.splits)


lemma nested_props:
  "nested_of trs p t = Inr ds \<Longrightarrow> (d, n) \<in> set ds \<Longrightarrow>
     0 < d \<and> op_transformation_id n \<in> set (map tr_id trs) \<and> op_transformation_id n \<notin> set (t # p)"
  "nested_ops trs p ops = Inr ds \<Longrightarrow> (d, n) \<in> set ds \<Longrightarrow>
     0 < d \<and> op_transformation_id n \<in> set (map tr_id trs) \<and> op_transformation_id n \<notin> set p"
proof (induction trs p t and trs p ops arbitrary: ds d n and ds d n rule: nested_of_nested_ops.induct)
  case (1 trs path t)
  then show ?case by (auto simp: nested_of_Inr_iff)
next
  case (2 trs path)
  then show ?case by simp
next
  case (3 trs path c cs)
  from "3.prems"(1) [unfolded nested_ops_Cons_Inr_iff] obtain ds1 es where
    ds1: "nested_of trs path (op_transformation_id c) = Inr ds1" and
    es: "nested_ops trs path cs = Inr es" and
    ds: "ds = (1, c) # map (\<lambda>(d, n). (d + 1, n)) ds1 @ es"
    by blast
  have c: "op_transformation_id c \<in> set (map tr_id trs)" "op_transformation_id c \<notin> set path"
    using ds1 by (auto simp: nested_of_Inr_iff dest!: find_key_in_keys)
  from "3.prems"(2) ds consider "(d, n) = (1, c)"
    | d' where "(d', n) \<in> set ds1" "d = d' + 1" | "(d, n) \<in> set es"
    by auto
  then show ?case
  proof cases
    case 1
    with c show ?thesis by simp
  next
    case 2
    with "3.IH"(1) [OF ds1] show ?thesis by fastforce
  next
    case 3
    with "3.IH"(2) [OF ds1 es] show ?thesis by blast
  qed
qed

lemma nested_refines_nests:
  "nested_of trs p t = Inr ds \<Longrightarrow> set ds = {(d, n). nests trs t d n}"
  "nested_ops trs p ops = Inr ds \<Longrightarrow>
     set ds = {(d, n). \<exists>c \<in> set ops.
        (d = 1 \<and> n = c) \<or> (\<exists>d'. d = d' + 1 \<and> nests trs (op_transformation_id c) d' n)}"
proof (induction trs p t and trs p ops arbitrary: ds and ds rule: nested_of_nested_ops.induct)
  case (1 trs path t)
  then obtain r where t: "t \<notin> set path" and r: "find_tr trs t = Some r"
    and ops: "nested_ops trs (t # path) (content_of r) = Inr ds"
    by (auto simp: nested_of_Inr_iff)
  show ?case
    using "1.IH" [OF _ r ops] by (auto simp: nests_iff [OF r] t)
next
  case (2 trs path)
  then show ?case by simp
next
  case (3 trs path c cs)
  from "3.prems" [unfolded nested_ops_Cons_Inr_iff] obtain ds1 es where
    ds1: "nested_of trs path (op_transformation_id c) = Inr ds1" and
    es: "nested_ops trs path cs = Inr es" and
    ds: "ds = (1, c) # map (\<lambda>(d, n). (d + 1, n)) ds1 @ es"
    by blast
  show ?case
    using "3.IH"(1) [OF ds1] "3.IH"(2) [OF ds1 es] unfolding ds by force
qed

subsection \<open>Rows and rebuild\<close>

lemma to_descendant_mk_nesting [simp]:
  "to_descendant (mk_nesting w c d n) = desc_of (d, n)"
  by (simp add: to_descendant_def mk_nesting_def desc_of_def)

lemma workflow_id_mk_nesting [simp]: "workflow_id (mk_nesting w c d n) = w"
  by (simp add: mk_nesting_def)

lemma closure_rows_Cons_Inr_iff:
  "closure_rows trs w (c # cs) = Inr rows \<longleftrightarrow>
     (\<exists>ds rs. nested_of trs [w] (op_transformation_id c) = Inr ds \<and> closure_rows trs w cs = Inr rs \<and>
        rows = mk_nesting w c 1 c # map (\<lambda>(d, n). mk_nesting w c (d + 1) n) ds @ rs)"
  by (auto split: sum.splits)

text \<open>The rows built for a workflow are, read back, the traversal below it.\<close>

lemma closure_rows_traversal:
  "map_sum id (map to_descendant) (closure_rows trs w ops) =
   map_sum id (map desc_of) (nested_ops trs [w] ops)"
proof (induction ops)
  case Nil
  then show ?case by simp
next
  case (Cons c cs)
  then show ?case
    by (auto split: sum.splits simp: case_prod_beta desc_of_def)
qed

lemma closure_rows_workflow_id:
  "closure_rows trs w ops = Inr rows \<Longrightarrow> n \<in> set rows \<Longrightarrow> workflow_id n = w"
  by (induction ops arbitrary: rows) (auto split: sum.splits)

lemma closure_rows_row_ok:
  assumes "closure_rows trs w ops = Inr rows" and "w \<in> set (map tr_id trs)"
  shows "\<forall>n \<in> set rows. nesting_row_ok trs n"
  using assms(1)
proof (induction ops arbitrary: rows)
  case Nil
  then show ?case by simp
next
  case (Cons c cs)
  from Cons.prems [unfolded closure_rows_Cons_Inr_iff] obtain ds rs where
    ds: "nested_of trs [w] (op_transformation_id c) = Inr ds" and
    rs: "closure_rows trs w cs = Inr rs" and
    rows: "rows = mk_nesting w c 1 c # map (\<lambda>(d, n). mk_nesting w c (d + 1) n) ds @ rs"
    by blast
  have c: "op_transformation_id c \<in> set (map tr_id trs)"
    using ds by (auto simp: nested_of_Inr_iff dest!: find_key_in_keys)
  have direct: "nesting_row_ok trs (mk_nesting w c 1 c)"
    using c assms(2) by (simp add: nesting_row_ok_def mk_nesting_def db_simps)
  have deeper: "nesting_row_ok trs (mk_nesting w c (d + 1) n)" if "(d, n) \<in> set ds" for d n
    using nested_props(1) [OF ds that] c assms(2)
    by (simp add: nesting_row_ok_def mk_nesting_def db_simps)
  show ?case
    using Cons.IH [OF rs] direct deeper unfolding rows by auto
qed

lemma rebuild_nesting_Inr_iff:
  "rebuild_nesting trs tbl w = Inr tbl' \<longleftrightarrow>
     (\<exists>r rows. find_tr trs w = Some r \<and> closure_rows trs w (content_of r) = Inr rows \<and>
        insert_nestings trs (filter (\<lambda>n. workflow_id n \<noteq> w) tbl) rows = Inr tbl')"
  by (auto simp: rebuild_nesting_def split: option.splits)

lemma rebuild_nesting_Inr_table:
  assumes "rebuild_nesting trs tbl w = Inr tbl'"
  obtains r rows where "find_tr trs w = Some r" "closure_rows trs w (content_of r) = Inr rows"
    "tbl' = filter (\<lambda>n. workflow_id n \<noteq> w) tbl @ rows"
  using assms by (auto simp: rebuild_nesting_Inr_iff insert_nestings_Inr_iff)

lemma nesting_table_ok_filter:
  "nesting_table_ok trs tbl \<Longrightarrow> nesting_table_ok trs (filter P tbl)"
  by (auto simp: nesting_table_ok_def distinct_map_filter)

lemma rebuild_nesting_preserves_ok:
  "nesting_table_ok trs tbl \<Longrightarrow> rebuild_nesting trs tbl w = Inr tbl' \<Longrightarrow>
     nesting_table_ok trs tbl'"
  by (auto simp: rebuild_nesting_Inr_iff intro: insert_nestings_preserves_ok nesting_table_ok_filter)

lemma rebuild_nesting_traversal:
  assumes "rebuild_nesting trs tbl w = Inr tbl'"
  shows "\<exists>ds. nested_of trs [] w = Inr ds \<and> descendants tbl' w = map desc_of ds"
proof -
  from assms obtain r rows where r: "find_tr trs w = Some r"
    and rows: "closure_rows trs w (content_of r) = Inr rows"
    and tbl': "tbl' = filter (\<lambda>n. workflow_id n \<noteq> w) tbl @ rows"
    by (rule rebuild_nesting_Inr_table)
  from closure_rows_traversal [of trs w "content_of r"] rows obtain ds where
    ds: "nested_ops trs [w] (content_of r) = Inr ds" and eq: "map to_descendant rows = map desc_of ds"
    by (cases "nested_ops trs [w] (content_of r)") auto
  have "nested_of trs [] w = Inr ds"
    using r ds by (simp add: nested_of_Inr_iff)
  moreover have "filter (\<lambda>n. workflow_id n = w) rows = rows"
    using closure_rows_workflow_id [OF rows] by (simp add: filter_id_conv)
  ultimately show ?thesis
    using eq by (simp add: tbl' descendants_def)
qed


lemma closure_rows_nested_of:
  "find_tr trs w = Some r \<Longrightarrow>
     map_sum id (map to_descendant) (closure_rows trs w (content_of r)) =
     map_sum id (map desc_of) (nested_of trs [] w)"
  using closure_rows_traversal by (simp add: nested_of.simps)

text \<open>A rebuild for \<open>w\<close> keeps the rows of every other workflow, in order.\<close>

lemma rebuild_nesting_rows_other:
  assumes "rebuild_nesting trs tbl w = Inr tbl'" and "w' \<noteq> w"
  shows "filter (\<lambda>n. workflow_id n = w') tbl' = filter (\<lambda>n. workflow_id n = w') tbl"
proof -
  from assms(1) obtain r rows where rows: "closure_rows trs w (content_of r) = Inr rows"
    and tbl': "tbl' = filter (\<lambda>n. workflow_id n \<noteq> w) tbl @ rows"
    by (rule rebuild_nesting_Inr_table)
  have "filter (\<lambda>n. workflow_id n = w') rows = []"
    using closure_rows_workflow_id [OF rows] assms(2) by (auto simp: filter_empty_conv)
  moreover have "filter (\<lambda>n. workflow_id n \<noteq> w \<and> workflow_id n = w') tbl =
      filter (\<lambda>n. workflow_id n = w') tbl"
    using assms(2) by (auto intro: filter_cong)
  ultimately show ?thesis
    by (simp add: tbl' filter_filter)
qed

text \<open>
  C1. After a successful rebuild for workflow \<open>w\<close>, \<open>descendants w\<close> lists
  exactly the operators that are transitively nested in \<open>w\<close>'s stored content, each
  with its depth: the closure table refines the reachability relation \<open>nests\<close>.
\<close>

lemma rebuild_nesting_descendants:
  assumes "rebuild_nesting trs tbl w = Inr tbl'"
  shows "set (descendants tbl' w) = desc_of ` {(d, n). nests trs w d n}"
proof -
  from rebuild_nesting_traversal [OF assms] obtain ds where
    "nested_of trs [] w = Inr ds" and "descendants tbl' w = map desc_of ds"
    by blast
  then show ?thesis using nested_refines_nests(1) by simp
qed

text \<open>
  C12. A rebuild for \<open>w\<close> leaves the closure of every other workflow as it was.
\<close>

lemma rebuild_nesting_other:
  assumes "rebuild_nesting trs tbl w = Inr tbl'" and "w' \<noteq> w"
  shows "descendants tbl' w' = descendants tbl w'"
  using rebuild_nesting_rows_other [OF assms] by (simp add: descendants_def)

text \<open>
  C6. Rebuilding a workflow's closure a second time, with no content change in
  between, succeeds and yields the identical table.
\<close>

lemma rebuild_nesting_idempotent:
  assumes "rebuild_nesting trs tbl w = Inr tbl'"
  shows "rebuild_nesting trs tbl' w = Inr tbl'"
proof -
  from assms obtain r rows where r: "find_tr trs w = Some r"
    and rows: "closure_rows trs w (content_of r) = Inr rows"
    and ins: "insert_nestings trs (filter (\<lambda>n. workflow_id n \<noteq> w) tbl) rows = Inr tbl'"
    by (auto simp: rebuild_nesting_Inr_iff)
  from ins have tbl': "tbl' = filter (\<lambda>n. workflow_id n \<noteq> w) tbl @ rows"
    by (simp add: insert_nestings_Inr_iff)
  have "filter (\<lambda>n. workflow_id n \<noteq> w) rows = []"
    using closure_rows_workflow_id [OF rows] by (auto simp: filter_empty_conv)
  then have "filter (\<lambda>n. workflow_id n \<noteq> w) tbl' = filter (\<lambda>n. workflow_id n \<noteq> w) tbl"
    by (simp add: tbl')
  with r rows ins show ?thesis
    by (simp add: rebuild_nesting_def)
qed

lemma rebuild_nesting_acyclic:
  assumes "rebuild_nesting trs tbl w = Inr tbl'" and "nests trs w d n"
  shows "op_transformation_id n \<noteq> w"
proof -
  from rebuild_nesting_traversal [OF assms(1)] obtain ds where ds: "nested_of trs [] w = Inr ds"
    by blast
  with assms(2) nested_refines_nests(1) [OF ds] have "(d, n) \<in> set ds" by auto
  from nested_props(1) [OF ds this] show ?thesis by simp
qed

lemma nested_errors:
  "nested_of trs p t = Inl e \<Longrightarrow>
     e = CyclicDependencyError \<or> (\<exists>x. e = NotFound x \<and> x \<notin> set (map tr_id trs))"
  "nested_ops trs p ops = Inl e \<Longrightarrow>
     e = CyclicDependencyError \<or> (\<exists>x. e = NotFound x \<and> x \<notin> set (map tr_id trs))"
proof (induction trs p t and trs p ops arbitrary: e and e rule: nested_of_nested_ops.induct)
  case (1 trs path t)
  then show ?case
    by (auto simp: nested_of.simps find_key_None_iff split: if_splits option.splits)
next
  case (2 trs path)
  then show ?case by simp
next
  case (3 trs path c cs)
  then show ?case by (auto split: sum.splits)
qed

lemma nested_refs_closed:
  "refs_closed trs \<Longrightarrow> t \<in> set (map tr_id trs) \<Longrightarrow> nested_of trs p t \<noteq> Inl (NotFound x)"
  "refs_closed trs \<Longrightarrow> \<forall>c \<in> set ops. op_transformation_id c \<in> set (map tr_id trs) \<Longrightarrow>
     nested_ops trs p ops \<noteq> Inl (NotFound x)"
proof (induction trs p t and trs p ops rule: nested_of_nested_ops.induct)
  case (1 trs path t)
  show ?case
  proof (cases "find_tr trs t")
    case None
    with "1.prems"(2) show ?thesis by (simp add: find_key_None_iff)
  next
    case (Some r)
    then have "\<forall>c \<in> set (content_of r). op_transformation_id c \<in> set (map tr_id trs)"
      using "1.prems"(1) by (auto simp: refs_closed_def)
    with "1.IH" [OF _ Some] "1.prems"(1) Some show ?thesis
      by (simp add: nested_of.simps)
  qed
next
  case (2 trs path)
  then show ?case by simp
next
  case (3 trs path c cs)
  then show ?case by (auto split: sum.splits)
qed

lemma rebuild_nesting_cyclic:
  assumes "refs_closed trs" and "w \<in> set (map tr_id trs)"
    and "nests trs w d n" and "op_transformation_id n = w"
  shows "rebuild_nesting trs tbl w = Inl CyclicDependencyError"
proof -
  obtain r where r: "find_tr trs w = Some r"
    using assms(2) by (cases "find_tr trs w") (auto simp: find_key_None_iff)
  have no_ds: "nested_of trs [] w \<noteq> Inr ds" for ds
  proof
    assume ds: "nested_of trs [] w = Inr ds"
    with assms(3) nested_refines_nests(1) [OF ds] have "(d, n) \<in> set ds" by auto
    from nested_props(1) [OF ds this] assms(4) show False by simp
  qed
  then obtain e where e: "nested_of trs [] w = Inl e"
    by (cases "nested_of trs [] w") auto
  with nested_errors(1) [OF e] nested_refs_closed(1) [OF assms(1,2)]
  have "e = CyclicDependencyError" by blast
  moreover have "closure_rows trs w (content_of r) = Inl e"
    using closure_rows_nested_of [OF r] e by (cases "closure_rows trs w (content_of r)") auto
  ultimately show ?thesis
    using r by (simp add: rebuild_nesting_def)
qed

lemma closure_rows_children:
  "closure_rows trs w ops = Inr rows \<Longrightarrow> c \<in> set ops \<Longrightarrow>
     op_transformation_id c \<in> set (map tr_id trs)"
proof (induction ops arbitrary: rows)
  case Nil
  then show ?case by simp
next
  case (Cons c' cs)
  from Cons.prems(1) [unfolded closure_rows_Cons_Inr_iff] obtain ds rs where
    "nested_of trs [w] (op_transformation_id c') = Inr ds" "closure_rows trs w cs = Inr rs"
    by blast
  with Cons show ?case
    by (auto simp: nested_of_Inr_iff dest!: find_key_in_keys)
qed

lemma rebuild_nesting_children:
  "rebuild_nesting trs tbl w = Inr tbl' \<Longrightarrow> find_tr trs w = Some r \<Longrightarrow>
     \<forall>c \<in> set (content_of r). op_transformation_id c \<in> set (map tr_id trs)"
proof -
  assume "rebuild_nesting trs tbl w = Inr tbl'" and "find_tr trs w = Some r"
  then obtain rows where "closure_rows trs w (content_of r) = Inr rows"
    by (auto simp: rebuild_nesting_Inr_iff)
  then show ?thesis using closure_rows_children by blast
qed

lemma refs_closed_write:
  "refs_closed trs \<Longrightarrow> set trs' \<subseteq> insert r (set trs) \<Longrightarrow>
     set (map tr_id trs) \<subseteq> set (map tr_id trs') \<Longrightarrow>
     \<forall>c \<in> set (content_of r). op_transformation_id c \<in> set (map tr_id trs') \<Longrightarrow>
     refs_closed trs'"
  unfolding refs_closed_def by blast

text \<open>
  C3. A rebuild of a stored workflow fails only with a cycle, with a reference to a
  revision that is not stored, or with a primary-key collision in \<open>nestings\<close>:
  the rows it produces never violate the check constraints or the foreign keys.
\<close>

lemma rebuild_nesting_errors:
  assumes "rebuild_nesting trs tbl w = Inl e" and "w \<in> set (map tr_id trs)"
  shows "e = CyclicDependencyError \<or> (\<exists>x. e = NotFound x \<and> x \<notin> set (map tr_id trs)) \<or>
    e = IntegrityError ''nestings_pkey''"
proof -
  obtain r where r: "find_tr trs w = Some r"
    using assms(2) by (cases "find_tr trs w") (auto simp: find_key_None_iff)
  show ?thesis
  proof (cases "closure_rows trs w (content_of r)")
    case (Inl e')
    with assms(1) r have "e' = e" by (simp add: rebuild_nesting_def)
    with Inl closure_rows_nested_of [OF r] have "nested_of trs [] w = Inl e"
      by (cases "nested_of trs [] w") auto
    then show ?thesis using nested_errors(1) by blast
  next
    case (Inr rows)
    with assms(1) r have "insert_nestings trs (filter (\<lambda>n. workflow_id n \<noteq> w) tbl) rows = Inl e"
      by (simp add: rebuild_nesting_def)
    with closure_rows_row_ok [OF Inr assms(2)] show ?thesis
      using insert_nestings_errors by blast
  qed
qed


subsection \<open>Primary-key collisions of the closure\<close>

lemma nested_ops_Cons_not_Nil:
  "nested_ops trs p (c # cs) = Inr es \<Longrightarrow> es \<noteq> []"
  by (auto split: sum.splits)

lemma nested_ops_block:
  "nested_ops trs p ops = Inr es \<Longrightarrow> c \<in> set ops \<Longrightarrow>
     \<exists>D. nested_of trs p (op_transformation_id c) = Inr D \<and>
       set (map (\<lambda>(d, n). (d + 1, n)) D) \<subseteq> set es"
proof (induction ops arbitrary: es)
  case Nil
  then show ?case by simp
next
  case (Cons c' cs)
  from Cons.prems(1) [unfolded nested_ops_Cons_Inr_iff] obtain ds es' where
    ds: "nested_of trs p (op_transformation_id c') = Inr ds" and es': "nested_ops trs p cs = Inr es'"
    and es: "es = (1, c') # map (\<lambda>(d, n). (d + 1, n)) ds @ es'"
    by blast
  show ?case
  proof (cases "c = c'")
    case True
    with ds es show ?thesis by auto
  next
    case False
    with Cons.prems(2) Cons.IH [OF es'] es show ?thesis by auto
  qed
qed

text \<open>
  Two operators of one content that instantiate the same revision contribute the
  same traversal twice, so the traversal lists a nested operator twice at one depth.
\<close>

lemma nested_ops_dup:
  assumes "nested_ops trs p ops = Inr es" and "o1 \<in> set ops" and "o2 \<in> set ops" and "o1 \<noteq> o2"
    and "op_transformation_id o1 = op_transformation_id o2"
    and "nested_of trs p (op_transformation_id o1) = Inr D" and "D \<noteq> []"
  shows "\<not> distinct es"
  using assms
proof (induction ops arbitrary: es)
  case Nil
  then show ?case by simp
next
  case (Cons c cs)
  from Cons.prems(1) [unfolded nested_ops_Cons_Inr_iff] obtain ds es' where
    ds: "nested_of trs p (op_transformation_id c) = Inr ds" and es': "nested_ops trs p cs = Inr es'"
    and es: "es = (1, c) # map (\<lambda>(d, n). (d + 1, n)) ds @ es'"
    by blast
  obtain x where x: "x \<in> set D" using Cons.prems(7) by (cases D) auto
  have shared: "\<not> distinct es" if "c \<in> {o1, o2}" and other: "o' \<in> set cs"
      and tid: "op_transformation_id o' = op_transformation_id o1" for o'
  proof -
    have "ds = D" using ds that(1) Cons.prems(5,6) by auto
    moreover from nested_ops_block [OF es' other] obtain D' where
      "nested_of trs p (op_transformation_id o') = Inr D'"
      "set (map (\<lambda>(d, n). (d + 1, n)) D') \<subseteq> set es'"
      by blast
    ultimately have "(\<lambda>(d, n). (d + 1, n)) x \<in> set (map (\<lambda>(d, n). (d + 1, n)) ds) \<inter> set es'"
      using tid Cons.prems(6) x by auto
    then show ?thesis unfolding es by auto
  qed
  show ?case
  proof (cases "c = o1 \<or> c = o2")
    case True
    then show ?thesis
    proof
      assume "c = o1"
      with Cons.prems(3,4) have "o2 \<in> set cs" by auto
      with \<open>c = o1\<close> Cons.prems(5) show ?thesis by (intro shared) auto
    next
      assume "c = o2"
      with Cons.prems(2,4) have "o1 \<in> set cs" by auto
      with \<open>c = o2\<close> show ?thesis by (intro shared) auto
    qed
  next
    case False
    with Cons.prems(2,3) have "o1 \<in> set cs" "o2 \<in> set cs" by auto
    with Cons.IH [OF es'] Cons.prems(4-7) have "\<not> distinct es'" by blast
    then show ?thesis unfolding es by auto
  qed
qed

lemma closure_rows_block:
  "closure_rows trs w cs = Inr rows \<Longrightarrow> c \<in> set cs \<Longrightarrow>
     \<exists>ds. nested_of trs [w] (op_transformation_id c) = Inr ds \<and>
       (\<not> distinct ds \<longrightarrow> \<not> distinct (map nesting_pk rows))"
proof (induction cs arbitrary: rows)
  case Nil
  then show ?case by simp
next
  case (Cons c' cs)
  from Cons.prems(1) [unfolded closure_rows_Cons_Inr_iff] obtain ds rs where
    ds: "nested_of trs [w] (op_transformation_id c') = Inr ds" and rs: "closure_rows trs w cs = Inr rs"
    and rows: "rows = mk_nesting w c' 1 c' # map (\<lambda>(d, n). mk_nesting w c' (d + 1) n) ds @ rs"
    by blast
  show ?case
  proof (cases "c = c'")
    case True
    have "\<not> distinct ds \<Longrightarrow> \<not> distinct (map nesting_pk rows)"
      unfolding rows by (auto simp: distinct_map)
    with ds True show ?thesis by blast
  next
    case False
    with Cons.prems(2) Cons.IH [OF rs] show ?thesis unfolding rows by auto
  qed
qed

text \<open>
  C7. The primary key of \<open>nestings\<close> rejects acyclic closures: when a workflow
  \<open>w\<close> has a direct child whose revision contains two operators instantiating the
  same revision with non-empty content, and the traversal below \<open>w\<close> succeeds, the
  rebuild fails with \<open>nestings_pkey\<close>, since both paths give the same row
  \<open>(w, via operator, 3, inner operator)\<close>.
\<close>

lemma closure_pk_collision:
  assumes w: "find_tr trs w = Some r" and c: "c \<in> set (content_of r)"
    and m: "find_tr trs (op_transformation_id c) = Some m"
    and o12: "o1 \<in> set (content_of m)" "o2 \<in> set (content_of m)" "o1 \<noteq> o2"
    and same: "op_transformation_id o1 = op_transformation_id o2"
    and x: "find_tr trs (op_transformation_id o1) = Some x" and inner: "content_of x \<noteq> []"
    and rows: "closure_rows trs w (content_of r) = Inr rows"
  shows "rebuild_nesting trs tbl w = Inl (IntegrityError ''nestings_pkey'')"
proof -
  from closure_rows_block [OF rows c] obtain ds where
    ds: "nested_of trs [w] (op_transformation_id c) = Inr ds"
    and dup: "\<not> distinct ds \<Longrightarrow> \<not> distinct (map nesting_pk rows)"
    by blast
  from ds m have ds': "nested_ops trs [op_transformation_id c, w] (content_of m) = Inr ds"
    by (auto simp: nested_of_Inr_iff)
  from nested_ops_block [OF ds' o12(1)] obtain D where
    D: "nested_of trs [op_transformation_id c, w] (op_transformation_id o1) = Inr D"
    by blast
  from inner obtain a as where a: "content_of x = a # as" by (cases "content_of x") auto
  have "nested_ops trs [op_transformation_id o1, op_transformation_id c, w] (a # as) = Inr D"
    using D x a by (auto simp: nested_of_Inr_iff)
  then have "D \<noteq> []" by (rule nested_ops_Cons_not_Nil)
  with nested_ops_dup [OF ds' o12 same D] have "\<not> distinct (map nesting_pk rows)"
    by (intro dup)
  then have "\<not> isl (Inr (tbl' :: nesting_table)) \<Longrightarrow>
      insert_nestings trs (filter (\<lambda>n. workflow_id n \<noteq> w) tbl) rows \<noteq> Inr tbl'" for tbl'
    by (auto simp: insert_nestings_Inr_iff)
  then obtain e where e: "insert_nestings trs (filter (\<lambda>n. workflow_id n \<noteq> w) tbl) rows = Inl e"
    by (cases "insert_nestings trs (filter (\<lambda>n. workflow_id n \<noteq> w) tbl) rows") auto
  have "w \<in> set (map tr_id trs)" using w by (rule find_key_in_keys)
  with e closure_rows_row_ok [OF rows] have "e = IntegrityError ''nestings_pkey''"
    using insert_nestings_errors by blast
  with e w rows show ?thesis by (simp add: rebuild_nesting_def)
qed
end
