(* ===== verification/Store.thy ===== *)
theory Store
  imports Closure
begin

text \<open>
  The Revision Store (spec section 4.1), whose code is not under \<open>src/\<close> and is
  modelled from the spec. The persistent state is the pair of tables of
  \<open>dbmodels.py\<close> and a clock. The four mutating operations are \<open>create\<close>,
  \<open>release\<close>, \<open>disable\<close> and \<open>update_content\<close>; each checks its guard (the
  state machine DRAFT \<open>\<rightarrow>\<close> RELEASED \<open>\<rightarrow>\<close> DISABLED, the content-type rule),
  writes the row through the UPDATE or INSERT of \<open>Revisions\<close>, and, for a
  workflow whose content or state changed, rebuilds its closure with
  \<open>rebuild_nesting\<close> in the same transaction. \<open>run_op\<close> is the transaction:
  on an error nothing is committed. \<open>db_step\<close> and \<open>reachable\<close> are the
  state machine of the whole store.
\<close>

record db =
  revisions :: tr_table
  nestings :: nesting_table
  now :: timestamp

datatype content = ComponentCode string | WorkflowOperators "operator list"

datatype db_op =
    Create transformation_revision
  | Release uuid
  | Disable uuid
  | UpdateContent uuid content

definition empty_db :: db where
  "empty_db = \<lparr>revisions = [], nestings = [], now = 0\<rparr>"

text \<open>The content-type invariant of spec section 3.\<close>

definition content_type_ok :: "transformation_revision \<Rightarrow> bool" where
  "content_type_ok r \<longleftrightarrow>
     (case type r of
        COMPONENT \<Rightarrow>
          workflow_content r = None \<and>
          (case component_code r of None \<Rightarrow> False | Some code \<Rightarrow> code \<noteq> [])
      | WORKFLOW \<Rightarrow> component_code r = None \<and> workflow_content r \<noteq> None)"

text \<open>
  Closure maintenance triggered by a write of revision \<open>r\<close> into the table
  \<open>trs\<close>, and the commit that ends every successful operation.
\<close>

definition sync_nesting :: "tr_table \<Rightarrow> nesting_table \<Rightarrow> transformation_revision \<Rightarrow> nesting_table result" where
  "sync_nesting trs tbl r =
     (if type r = WORKFLOW then rebuild_nesting trs tbl (tr_id r) else Inr tbl)"

definition commit :: "db \<Rightarrow> tr_table \<Rightarrow> transformation_revision \<Rightarrow> db result" where
  "commit s trs r =
     rbind (sync_nesting trs (nestings s) r)
       (\<lambda>tbl. Inr \<lparr>revisions = trs, nestings = tbl, now = Suc (now s)\<rparr>)"

definition create :: "db \<Rightarrow> transformation_revision \<Rightarrow> db result" where
  "create s r =
     (if state r \<noteq> DRAFT \<or> released_timestamp r \<noteq> None \<or> disabled_timestamp r \<noteq> None \<or>
         \<not> content_type_ok r
      then Inl ValidationError
      else case insert_tr (revisions s) r of
        Inl e \<Rightarrow> Inl ValidationError
      | Inr trs \<Rightarrow> commit s trs r)"

definition release :: "db \<Rightarrow> uuid \<Rightarrow> db result" where
  "release s i =
     (case find_tr (revisions s) i of
        None \<Rightarrow> Inl (NotFound i)
      | Some r \<Rightarrow>
          if state r \<noteq> DRAFT then Inl InvalidStateTransition
          else
            let r' = r\<lparr>state := RELEASED, released_timestamp := Some (now s)\<rparr>
            in rbind (update_tr (revisions s) r') (\<lambda>trs. commit s trs r'))"

definition disable :: "db \<Rightarrow> uuid \<Rightarrow> db result" where
  "disable s i =
     (case find_tr (revisions s) i of
        None \<Rightarrow> Inl (NotFound i)
      | Some r \<Rightarrow>
          if state r \<noteq> RELEASED then Inl InvalidStateTransition
          else
            let r' = r\<lparr>state := DISABLED, disabled_timestamp := Some (now s)\<rparr>
            in rbind (update_tr (revisions s) r')
                 (\<lambda>trs. Inr (s\<lparr>revisions := trs, now := Suc (now s)\<rparr>)))"

definition with_content :: "transformation_revision \<Rightarrow> content \<Rightarrow> transformation_revision result" where
  "with_content r c =
     (case (type r, c) of
        (COMPONENT, ComponentCode code) \<Rightarrow>
          if code = [] then Inl ValidationError else Inr (r\<lparr>component_code := Some code\<rparr>)
      | (WORKFLOW, WorkflowOperators ops) \<Rightarrow> Inr (r\<lparr>workflow_content := Some ops\<rparr>)
      | _ \<Rightarrow> Inl ValidationError)"

definition update_content :: "db \<Rightarrow> uuid \<Rightarrow> content \<Rightarrow> db result" where
  "update_content s i c =
     (case find_tr (revisions s) i of
        None \<Rightarrow> Inl (NotFound i)
      | Some r \<Rightarrow>
          if state r \<noteq> DRAFT then Inl InvalidStateTransition
          else rbind (with_content r c)
                 (\<lambda>r'. rbind (update_tr (revisions s) r') (\<lambda>trs. commit s trs r')))"

definition apply_op :: "db \<Rightarrow> db_op \<Rightarrow> db result" where
  "apply_op s op = (case op of
      Create r \<Rightarrow> create s r
    | Release i \<Rightarrow> release s i
    | Disable i \<Rightarrow> disable s i
    | UpdateContent i c \<Rightarrow> update_content s i c)"

text \<open>The transaction: the error is reported and the old state is kept.\<close>

definition run_op :: "db \<Rightarrow> db_op \<Rightarrow> error option \<times> db" where
  "run_op s op = (case apply_op s op of Inl e \<Rightarrow> (Some e, s) | Inr s' \<Rightarrow> (None, s'))"

fun run_ops :: "db \<Rightarrow> db_op list \<Rightarrow> error option list \<times> db" where
  "run_ops s [] = ([], s)"
| "run_ops s (op # ops) =
     (let (e, s') = run_op s op; (es, s'') = run_ops s' ops in (e # es, s''))"

inductive db_step :: "db \<Rightarrow> db \<Rightarrow> bool" where
  "apply_op s op = Inr s' \<Longrightarrow> db_step s s'"

inductive reachable :: "db \<Rightarrow> bool" where
  init: "reachable empty_db"
| step: "reachable s \<Longrightarrow> db_step s s' \<Longrightarrow> reachable s'"

subsection \<open>Invariant\<close>

definition revision_ok :: "transformation_revision \<Rightarrow> bool" where
  "revision_ok r \<longleftrightarrow>
     content_type_ok r \<and>
     (released_timestamp r = None \<longleftrightarrow> state r = DRAFT) \<and>
     (disabled_timestamp r = None \<longleftrightarrow> state r \<noteq> DISABLED)"

definition db_inv :: "db \<Rightarrow> bool" where
  "db_inv s \<longleftrightarrow>
     tr_table_ok (revisions s) \<and> (\<forall>r \<in> set (revisions s). revision_ok r) \<and>
     refs_closed (revisions s) \<and> nesting_table_ok (revisions s) (nestings s)"

subsection \<open>Operations\<close>

lemma commit_Inr_iff:
  "commit s trs r = Inr s' \<longleftrightarrow>
     (\<exists>tbl. sync_nesting trs (nestings s) r = Inr tbl \<and>
        s' = \<lparr>revisions = trs, nestings = tbl, now = Suc (now s)\<rparr>)"
  by (auto simp: commit_def)

lemma create_Inr:
  assumes "create s r = Inr s'"
  shows "state r = DRAFT" "released_timestamp r = None" "disabled_timestamp r = None"
    "content_type_ok r" "insert_tr (revisions s) r = Inr (revisions s')"
    "sync_nesting (revisions s') (nestings s) r = Inr (nestings s')"
  using assms by (auto simp: create_def commit_Inr_iff split: if_splits sum.splits)

lemma release_Inr:
  assumes "release s i = Inr s'"
  obtains r where "find_tr (revisions s) i = Some r" "state r = DRAFT"
    "update_tr (revisions s) (r\<lparr>state := RELEASED, released_timestamp := Some (now s)\<rparr>) = Inr (revisions s')"
    "sync_nesting (revisions s') (nestings s) (r\<lparr>state := RELEASED, released_timestamp := Some (now s)\<rparr>) =
       Inr (nestings s')"
  using assms by (auto simp: release_def Let_def commit_Inr_iff split: if_splits option.splits)

lemma disable_Inr:
  assumes "disable s i = Inr s'"
  obtains r where "find_tr (revisions s) i = Some r" "state r = RELEASED"
    "update_tr (revisions s) (r\<lparr>state := DISABLED, disabled_timestamp := Some (now s)\<rparr>) = Inr (revisions s')"
    "nestings s' = nestings s"
  using assms by (auto simp: disable_def Let_def split: if_splits option.splits)

lemma update_content_Inr:
  assumes "update_content s i c = Inr s'"
  obtains r r' where "find_tr (revisions s) i = Some r" "state r = DRAFT"
    "with_content r c = Inr r'"
    "update_tr (revisions s) r' = Inr (revisions s')"
    "sync_nesting (revisions s') (nestings s) r' = Inr (nestings s')"
  using assms by (auto simp: update_content_def commit_Inr_iff split: if_splits option.splits sum.splits)

lemma with_content_Inr:
  "with_content r c = Inr r' \<Longrightarrow>
     (type r = COMPONENT \<and> (\<exists>code. c = ComponentCode code \<and> code \<noteq> [] \<and> r' = r\<lparr>component_code := Some code\<rparr>)) \<or>
     (type r = WORKFLOW \<and> (\<exists>ops. c = WorkflowOperators ops \<and> r' = r\<lparr>workflow_content := Some ops\<rparr>))"
  by (auto simp: with_content_def split: Type.splits content.splits if_splits)

subsection \<open>Preservation of the invariant\<close>

lemma sync_nesting_ok:
  "nesting_table_ok trs tbl \<Longrightarrow> sync_nesting trs tbl r = Inr tbl' \<Longrightarrow> nesting_table_ok trs tbl'"
  by (auto simp: sync_nesting_def rebuild_nesting_Inr_iff split: if_splits
      intro: insert_nestings_preserves_ok nesting_table_ok_filter)

lemma sync_nesting_children:
  assumes "sync_nesting trs tbl r = Inr tbl'" and "find_tr trs (tr_id r) = Some r"
    and "content_type_ok r"
  shows "\<forall>c \<in> set (content_of r). op_transformation_id c \<in> set (map tr_id trs)"
proof (cases "type r")
  case COMPONENT
  with assms(3) show ?thesis by (simp add: content_type_ok_def content_of_def)
next
  case WORKFLOW
  with assms(1) have "rebuild_nesting trs tbl (tr_id r) = Inr tbl'"
    by (simp add: sync_nesting_def)
  from rebuild_nesting_children [OF this assms(2)] show ?thesis .
qed

lemma set_replace_key_subset: "set (replace_key key r rows) \<subseteq> insert r (set rows)"
  by (auto dest: in_set_replace_key_cases)

lemma find_written:
  "tr_table_ok trs \<Longrightarrow> r \<in> set trs \<Longrightarrow> find_tr trs (tr_id r) = Some r"
  by (simp add: tr_table_ok_def find_key_unique)

lemma write_step_inv:
  assumes inv: "db_inv s" and ok: "tr_table_ok (revisions s')" and r'_ok: "revision_ok r'"
    and rows: "set (revisions s') \<subseteq> insert r' (set (revisions s))"
    and ids: "set (map tr_id (revisions s)) \<subseteq> set (map tr_id (revisions s'))"
    and children: "\<forall>c \<in> set (content_of r'). op_transformation_id c \<in> set (map tr_id (revisions s'))"
    and nest: "nesting_table_ok (revisions s') (nestings s) \<Longrightarrow> nesting_table_ok (revisions s') (nestings s')"
  shows "db_inv s'"
proof -
  have "refs_closed (revisions s')"
    using refs_closed_write [OF _ rows ids children] inv by (simp add: db_inv_def)
  moreover have "nesting_table_ok (revisions s') (nestings s')"
    using nest nesting_table_ok_mono [OF ids] inv by (simp add: db_inv_def)
  moreover have "\<forall>x \<in> set (revisions s'). revision_ok x"
    using inv rows r'_ok by (auto simp: db_inv_def)
  ultimately show ?thesis
    using ok by (simp add: db_inv_def)
qed

lemma create_preserves_inv:
  assumes inv: "db_inv s" and op: "create s r = Inr s'"
  shows "db_inv s'"
proof -
  note c = create_Inr [OF op]
  have ok: "tr_table_ok (revisions s')"
    using inv c(5) by (auto simp: db_inv_def intro: insert_tr_preserves_ok)
  have trs': "revisions s' = revisions s @ [r]"
    using c(5) by (simp add: insert_tr_Inr_iff)
  have r_ok: "revision_ok r"
    using c(1-4) by (simp add: revision_ok_def)
  have "find_tr (revisions s') (tr_id r) = Some r"
    using ok trs' by (simp add: find_written)
  then have "\<forall>c \<in> set (content_of r). op_transformation_id c \<in> set (map tr_id (revisions s'))"
    using sync_nesting_children [OF c(6) _ c(4)] by blast
  moreover have "nesting_table_ok (revisions s') (nestings s) \<Longrightarrow>
      nesting_table_ok (revisions s') (nestings s')"
    using sync_nesting_ok [OF _ c(6)] by blast
  ultimately show ?thesis
    using inv ok r_ok trs' by (auto intro: write_step_inv)
qed

lemma revision_ok_in_store:
  "db_inv s \<Longrightarrow> find_tr (revisions s) i = Some r \<Longrightarrow> revision_ok r"
  by (auto simp: db_inv_def dest: find_key_SomeD)

lemma update_write_inv:
  assumes inv: "db_inv s" and r'_ok: "revision_ok r'"
    and upd: "update_tr (revisions s) r' = Inr (revisions s')"
    and children: "\<forall>c \<in> set (content_of r'). op_transformation_id c \<in> set (map tr_id (revisions s'))"
    and nest: "nesting_table_ok (revisions s') (nestings s) \<Longrightarrow> nesting_table_ok (revisions s') (nestings s')"
  shows "db_inv s'"
proof -
  have ok: "tr_table_ok (revisions s')"
    using inv upd by (auto simp: db_inv_def intro: update_tr_preserves_ok)
  have "revisions s' = replace_key tr_id r' (revisions s)"
    using upd by (simp add: update_tr_Inr_iff)
  then have rows: "set (revisions s') \<subseteq> insert r' (set (revisions s))"
    by (simp add: set_replace_key_subset)
  have ids: "set (map tr_id (revisions s)) \<subseteq> set (map tr_id (revisions s'))"
    using ids_update_tr [OF upd] by simp
  show ?thesis
    using inv ok r'_ok rows ids children nest by (rule write_step_inv)
qed

lemma synced_children:
  assumes "update_tr (revisions s) r' = Inr (revisions s')"
    and "sync_nesting (revisions s') (nestings s) r' = Inr (nestings s')" and "content_type_ok r'"
  shows "\<forall>c \<in> set (content_of r'). op_transformation_id c \<in> set (map tr_id (revisions s'))"
proof -
  have "find_tr (revisions s') (tr_id r') = Some r'"
    using assms(1) by (auto simp: update_tr_Inr_iff find_key_replace_key)
  then show ?thesis using sync_nesting_children [OF assms(2) _ assms(3)] by blast
qed

lemma release_preserves_inv:
  assumes inv: "db_inv s" and op: "release s i = Inr s'"
  shows "db_inv s'"
proof -
  from op obtain r where r: "find_tr (revisions s) i = Some r" "state r = DRAFT"
    and upd: "update_tr (revisions s) (r\<lparr>state := RELEASED, released_timestamp := Some (now s)\<rparr>) = Inr (revisions s')"
    and sync: "sync_nesting (revisions s') (nestings s) (r\<lparr>state := RELEASED, released_timestamp := Some (now s)\<rparr>) = Inr (nestings s')"
    by (rule release_Inr)
  have "revision_ok r" using inv r(1) by (rule revision_ok_in_store)
  with r(2) have ok': "revision_ok (r\<lparr>state := RELEASED, released_timestamp := Some (now s)\<rparr>)"
    by (simp add: revision_ok_def content_type_ok_def split: Type.splits)
  then have "content_type_ok (r\<lparr>state := RELEASED, released_timestamp := Some (now s)\<rparr>)"
    by (simp add: revision_ok_def)
  with upd sync have children:
    "\<forall>c \<in> set (content_of (r\<lparr>state := RELEASED, released_timestamp := Some (now s)\<rparr>)).
       op_transformation_id c \<in> set (map tr_id (revisions s'))"
    by (rule synced_children)
  show ?thesis
    using inv ok' upd children sync_nesting_ok [OF _ sync] by (rule update_write_inv)
qed

lemma disable_preserves_inv:
  assumes inv: "db_inv s" and op: "disable s i = Inr s'"
  shows "db_inv s'"
proof -
  from op obtain r where r: "find_tr (revisions s) i = Some r" "state r = RELEASED"
    and upd: "update_tr (revisions s) (r\<lparr>state := DISABLED, disabled_timestamp := Some (now s)\<rparr>) = Inr (revisions s')"
    and nest: "nestings s' = nestings s"
    by (rule disable_Inr)
  have "revision_ok r" using inv r(1) by (rule revision_ok_in_store)
  with r(2) have ok': "revision_ok (r\<lparr>state := DISABLED, disabled_timestamp := Some (now s)\<rparr>)"
    by (simp add: revision_ok_def content_type_ok_def split: Type.splits)
  have "r \<in> set (revisions s)" using r(1) by auto
  then have "\<forall>c \<in> set (content_of r). op_transformation_id c \<in> set (map tr_id (revisions s))"
    using inv by (auto simp: db_inv_def refs_closed_def)
  then have children:
    "\<forall>c \<in> set (content_of (r\<lparr>state := DISABLED, disabled_timestamp := Some (now s)\<rparr>)).
       op_transformation_id c \<in> set (map tr_id (revisions s'))"
    using ids_update_tr [OF upd] by (simp add: content_of_def)
  show ?thesis
    using inv ok' upd children by (rule update_write_inv) (simp add: nest)
qed

lemma update_content_preserves_inv:
  assumes inv: "db_inv s" and op: "update_content s i c = Inr s'"
  shows "db_inv s'"
proof -
  from op obtain r r' where r: "find_tr (revisions s) i = Some r" "state r = DRAFT"
    and wc: "with_content r c = Inr r'"
    and upd: "update_tr (revisions s) r' = Inr (revisions s')"
    and sync: "sync_nesting (revisions s') (nestings s) r' = Inr (nestings s')"
    by (rule update_content_Inr)
  have "revision_ok r" using inv r(1) by (rule revision_ok_in_store)
  with with_content_Inr [OF wc] have ok': "revision_ok r'"
    by (auto simp: revision_ok_def content_type_ok_def split: Type.splits)
  then have "content_type_ok r'" by (simp add: revision_ok_def)
  with upd sync have children:
    "\<forall>c \<in> set (content_of r'). op_transformation_id c \<in> set (map tr_id (revisions s'))"
    by (rule synced_children)
  show ?thesis
    using inv ok' upd children sync_nesting_ok [OF _ sync] by (rule update_write_inv)
qed

lemma apply_op_preserves_inv:
  "db_inv s \<Longrightarrow> apply_op s op = Inr s' \<Longrightarrow> db_inv s'"
  by (cases op) (auto simp: apply_op_def intro: create_preserves_inv release_preserves_inv
      disable_preserves_inv update_content_preserves_inv)

lemma db_inv_empty: "db_inv empty_db"
  by (simp add: db_inv_def empty_db_def tr_table_ok_def refs_closed_def nesting_table_ok_def)

subsection \<open>The state machine\<close>

lemma db_step_row:
  assumes "db_step s s'" and "find_tr (revisions s) i = Some r"
  shows "\<exists>r'. find_tr (revisions s') i = Some r' \<and>
    (r' = r \<or>
     (state r = DRAFT \<and> r' = r\<lparr>state := RELEASED, released_timestamp := Some (now s)\<rparr>) \<or>
     (state r = RELEASED \<and> r' = r\<lparr>state := DISABLED, disabled_timestamp := Some (now s)\<rparr>) \<or>
     (state r = DRAFT \<and> (\<exists>c. with_content r c = Inr r')))"
proof -
  from assms(1) obtain op where op: "apply_op s op = Inr s'"
    by (cases rule: db_step.cases) blast
  have key: "tr_id r = i" using assms(2) by auto
  show ?thesis
  proof (cases op)
    case (Create x)
    with op have "insert_tr (revisions s) x = Inr (revisions s')"
      by (auto simp: apply_op_def dest: create_Inr)
    with assms(2) show ?thesis by (auto simp: insert_tr_Inr_iff find_key_append)
  next
    case (Release j)
    with op have "release s j = Inr s'" by (simp add: apply_op_def)
    then obtain r0 where r0: "find_tr (revisions s) j = Some r0" "state r0 = DRAFT"
      and upd: "update_tr (revisions s) (r0\<lparr>state := RELEASED, released_timestamp := Some (now s)\<rparr>) = Inr (revisions s')"
      by (rule release_Inr)
    have "tr_id r0 = j" using r0(1) by auto
    with find_tr_update [OF upd, of i] assms(2) r0 show ?thesis
      by (auto split: if_splits)
  next
    case (Disable j)
    with op have "disable s j = Inr s'" by (simp add: apply_op_def)
    then obtain r0 where r0: "find_tr (revisions s) j = Some r0" "state r0 = RELEASED"
      and upd: "update_tr (revisions s) (r0\<lparr>state := DISABLED, disabled_timestamp := Some (now s)\<rparr>) = Inr (revisions s')"
      by (rule disable_Inr)
    have "tr_id r0 = j" using r0(1) by auto
    with find_tr_update [OF upd, of i] assms(2) r0 show ?thesis
      by (auto split: if_splits)
  next
    case (UpdateContent j c)
    with op have "update_content s j c = Inr s'" by (simp add: apply_op_def)
    then obtain r0 r0' where r0: "find_tr (revisions s) j = Some r0" "state r0 = DRAFT"
      and wc: "with_content r0 c = Inr r0'"
      and upd: "update_tr (revisions s) r0' = Inr (revisions s')"
      by (rule update_content_Inr)
    have "tr_id r0' = tr_id r0" using with_content_Inr [OF wc] by auto
    moreover have "tr_id r0 = j" using r0(1) by auto
    ultimately show ?thesis
      using find_tr_update [OF upd, of i] assms(2) r0 wc by (auto split: if_splits)
  qed
qed

subsection \<open>Properties\<close>

text \<open>
  C13. Every reachable store satisfies the invariant: both tables meet all their
  constraints, every revision satisfies the content-type rule and has timestamps
  matching its state, and every operator refers to a stored revision.
\<close>

theorem reachable_db_inv: "reachable s \<Longrightarrow> db_inv s"
proof (induction rule: reachable.induct)
  case init
  show ?case by (rule db_inv_empty)
next
  case (step s s')
  from step.hyps(2) obtain op where "apply_op s op = Inr s'"
    by (cases rule: db_step.cases) blast
  with step.IH show ?case by (rule apply_op_preserves_inv)
qed

text \<open>
  C14. A step of the store never removes a revision and moves its state at most one
  step forward: DRAFT to RELEASED or RELEASED to DISABLED.
\<close>

theorem db_step_state_forward:
  assumes "db_step s s'" and "find_tr (revisions s) i = Some r"
  shows "\<exists>r'. find_tr (revisions s') i = Some r' \<and>
    (state r' = state r \<or> (state r = DRAFT \<and> state r' = RELEASED) \<or>
     (state r = RELEASED \<and> state r' = DISABLED))"
  using db_step_row [OF assms] by (auto dest!: with_content_Inr)

text \<open>
  C15. From a store satisfying the invariant, a step never resets a set timestamp and
  never changes the content of a revision that is no longer DRAFT.
\<close>

theorem db_step_released_frozen:
  assumes "db_inv s" and "db_step s s'" and "find_tr (revisions s) i = Some r"
  shows "\<exists>r'. find_tr (revisions s') i = Some r' \<and>
    (released_timestamp r \<noteq> None \<longrightarrow> released_timestamp r' = released_timestamp r) \<and>
    (disabled_timestamp r \<noteq> None \<longrightarrow> disabled_timestamp r' = disabled_timestamp r) \<and>
    (state r \<noteq> DRAFT \<longrightarrow>
       workflow_content r' = workflow_content r \<and> component_code r' = component_code r)"
proof -
  have "revision_ok r"
    using assms(1,3) by (rule revision_ok_in_store)
  then have "state r = DRAFT \<Longrightarrow> released_timestamp r = None"
    and "state r = RELEASED \<Longrightarrow> disabled_timestamp r = None"
    by (auto simp: revision_ok_def)
  with db_step_row [OF assms(2,3)] show ?thesis
    by (auto dest!: with_content_Inr)
qed

text \<open>
  C2. Updating a DRAFT workflow's content so that it nests itself, directly or
  transitively, raises \<open>CyclicDependencyError\<close> and leaves the whole store,
  its closure rows included, unchanged.
\<close>

theorem update_content_cyclic:
  assumes inv: "db_inv s" and r: "find_tr (revisions s) w = Some r"
    and draft: "state r = DRAFT" and wf: "type r = WORKFLOW"
    and refs: "\<forall>c \<in> set ops. op_transformation_id c \<in> set (map tr_id (revisions s))"
    and cyc: "nests (replace_key tr_id (r\<lparr>workflow_content := Some ops\<rparr>) (revisions s)) w d n"
    and self: "op_transformation_id n = w"
  shows "run_op s (UpdateContent w (WorkflowOperators ops)) = (Some CyclicDependencyError, s)"
proof -
  let ?r' = "r\<lparr>workflow_content := Some ops\<rparr>"
  let ?trs = "replace_key tr_id ?r' (revisions s)"
  have mem: "r \<in> set (revisions s)" and w: "tr_id r = w" using r by auto
  have "revision_ok r" using inv r by (rule revision_ok_in_store)
  with wf have cc: "exactly_one_of_content_cc ?r'"
    by (simp add: revision_ok_def content_type_ok_def exactly_one_of_content_cc_def)
  have upd: "update_tr (revisions s) ?r' = Inr ?trs"
    using inv mem cc by (intro update_tr_same_key) (auto simp: db_inv_def group_tag_def)
  have ids: "set (map tr_id ?trs) = set (map tr_id (revisions s))"
    by simp
  have "refs_closed ?trs"
    using refs_closed_write [OF _ set_replace_key_subset [of tr_id ?r' "revisions s"]] inv refs ids
    by (simp add: db_inv_def content_of_def)
  moreover have "w \<in> set (map tr_id ?trs)" using mem w by force
  ultimately have "rebuild_nesting ?trs (nestings s) w = Inl CyclicDependencyError"
    using cyc self by (rule rebuild_nesting_cyclic)
  then have "update_content s w (WorkflowOperators ops) = Inl CyclicDependencyError"
    using r draft wf upd w
    by (simp add: update_content_def with_content_def commit_def sync_nesting_def)
  then show ?thesis by (simp add: run_op_def apply_op_def)
qed

text \<open>
  C11. A successful content update of revision \<open>i\<close> leaves the closure rows of
  every other workflow exactly as they were, also those of the workflows that nest
  \<open>i\<close>: their closure still describes \<open>i\<close>'s old content.
\<close>

theorem update_content_other_rows:
  assumes "update_content s i c = Inr s'" and "w \<noteq> i"
  shows "filter (\<lambda>n. workflow_id n = w) (nestings s') = filter (\<lambda>n. workflow_id n = w) (nestings s)"
proof -
  from assms(1) obtain r r' where find: "find_tr (revisions s) i = Some r"
    and wc: "with_content r c = Inr r'"
    and sync: "sync_nesting (revisions s') (nestings s) r' = Inr (nestings s')"
    by (rule update_content_Inr)
  have "tr_id r' = i"
    using find with_content_Inr [OF wc] by auto
  with sync assms(2) show ?thesis
    by (auto simp: sync_nesting_def split: if_splits dest: rebuild_nesting_rows_other)
qed

end
