(* ===== verification/Queries.thy ===== *)
theory Queries
  imports Closure
begin

text \<open>
  The query parameters \<open>FilterParams\<close> of
  \<open>src/runtime/hetdesrun/persistence/dbmodels.py\<close> (lines 25--61) and the
  Filter/Query Engine of spec section 4.3, whose code is not under \<open>src/\<close> and
  is modelled from the spec. Fields of \<open>FilterParams\<close> whose names clash with
  columns of \<open>transformation_revisions\<close> carry the prefix \<open>fp_\<close>. Phase 1
  keeps the revisions that satisfy every given predicate, excluding DISABLED ones
  when no state is asked for and \<open>include_deprecated\<close> is false; \<open>unused\<close>
  keeps those that no non-DISABLED workflow nests (through the relationship
  \<open>nesting_workflow\<close>); phase 2 adds the non-DISABLED revisions the selected
  workflows reach according to \<open>descendants\<close>; the result is ordered by
  category, name, version tag and id.
\<close>

record filter_params =
  fp_type :: "Type option"
  fp_state :: "State option"
  fp_category :: "string option"
  fp_revision_group_id :: "uuid option"
  ids :: "uuid list option"
  names :: "string list option"
  include_deprecated :: bool
  include_dependencies :: bool
  unused :: bool

definition default_filter_params :: filter_params where
  "default_filter_params =
     \<lparr>fp_type = None, fp_state = None, fp_category = None, fp_revision_group_id = None,
      ids = None, names = None,
      include_deprecated = True, include_dependencies = False, unused = False\<rparr>"

definition phase1_match :: "filter_params \<Rightarrow> transformation_revision \<Rightarrow> bool" where
  "phase1_match fp r \<longleftrightarrow>
     (case fp_type fp of None \<Rightarrow> True | Some t \<Rightarrow> type r = t) \<and>
     (case fp_state fp of
        None \<Rightarrow> include_deprecated fp \<or> state r \<noteq> DISABLED
      | Some st \<Rightarrow> state r = st) \<and>
     (case fp_category fp of None \<Rightarrow> True | Some c \<Rightarrow> category r = c) \<and>
     (case fp_revision_group_id fp of None \<Rightarrow> True | Some g \<Rightarrow> revision_group_id r = g) \<and>
     (case ids fp of None \<Rightarrow> True | Some xs \<Rightarrow> tr_id r \<in> set xs) \<and>
     (case names fp of None \<Rightarrow> True | Some ns \<Rightarrow> name r \<in> set ns)"

definition is_unused :: "tr_table \<Rightarrow> nesting_table \<Rightarrow> transformation_revision \<Rightarrow> bool" where
  "is_unused trs tbl r \<longleftrightarrow>
     list_all (\<lambda>n. nested_transformation_id n \<noteq> tr_id r \<or>
                   (case nesting_workflow trs n of None \<Rightarrow> True | Some w \<Rightarrow> state w = DISABLED))
       tbl"

definition dependency_ids :: "nesting_table \<Rightarrow> transformation_revision list \<Rightarrow> uuid list" where
  "dependency_ids tbl sel =
     concat (map (\<lambda>r. map d_transformation_id (descendants tbl (tr_id r)))
       (filter (\<lambda>r. type r = WORKFLOW) sel))"

definition order_key :: "transformation_revision \<Rightarrow> string \<times> string \<times> string \<times> uuid" where
  "order_key r = (category r, name r, version_tag r, tr_id r)"

definition select_base :: "filter_params \<Rightarrow> tr_table \<Rightarrow> nesting_table \<Rightarrow> transformation_revision list" where
  "select_base fp trs tbl =
     filter (\<lambda>r. phase1_match fp r \<and> (unused fp \<longrightarrow> is_unused trs tbl r)) trs"

definition select_dependencies ::
  "tr_table \<Rightarrow> nesting_table \<Rightarrow> transformation_revision list \<Rightarrow> transformation_revision list" where
  "select_dependencies trs tbl base =
     filter (\<lambda>r. tr_id r \<in> set (dependency_ids tbl base) \<and> tr_id r \<notin> set (map tr_id base) \<and>
                 state r \<noteq> DISABLED) trs"

definition select_revisions :: "filter_params \<Rightarrow> tr_table \<Rightarrow> nesting_table \<Rightarrow> transformation_revision list" where
  "select_revisions fp trs tbl =
     (let base = select_base fp trs tbl;
          deps = (if include_dependencies fp then select_dependencies trs tbl base else [])
      in sort_key order_key (base @ deps))"

subsection \<open>Lemmas\<close>

lemma set_select_revisions:
  "set (select_revisions fp trs tbl) =
     set (select_base fp trs tbl) \<union>
     (if include_dependencies fp then set (select_dependencies trs tbl (select_base fp trs tbl)) else {})"
  by (simp add: select_revisions_def Let_def)

lemma select_revisions_sorted: "sorted (map order_key (select_revisions fp trs tbl))"
  by (simp add: select_revisions_def Let_def)

lemma select_revisions_distinct:
  assumes "distinct (map tr_id trs)"
  shows "distinct (map tr_id (select_revisions fp trs tbl))"
proof -
  let ?base = "select_base fp trs tbl"
  let ?deps = "if include_dependencies fp then select_dependencies trs tbl ?base else []"
  have base: "distinct (map tr_id ?base)"
    using assms by (simp add: select_base_def distinct_map_filter)
  have deps: "distinct (map tr_id ?deps)" and disj: "tr_id ` set ?deps \<inter> tr_id ` set ?base = {}"
    using assms by (auto simp: select_dependencies_def distinct_map_filter)
  have "distinct (map tr_id (?base @ ?deps))"
    using base deps disj by auto
  then have "distinct (?base @ ?deps)" and "inj_on tr_id (set (?base @ ?deps))"
    by (simp_all only: distinct_map)
  then show ?thesis
    by (simp add: select_revisions_def Let_def distinct_map)
qed

lemma select_revisions_phase1:
  assumes "\<not> include_dependencies fp" and "\<not> unused fp"
  shows "set (select_revisions fp trs tbl) = {r \<in> set trs. phase1_match fp r}"
  using assms by (auto simp: set_select_revisions select_base_def)

text \<open>
  The two flags follow spec section 4.3 and their field names; the \<open>Field\<close>
  descriptions in \<open>dbmodels.py\<close> (lines 41--54) give them swapped meanings. Under
  the spec's reading, the defaults return every revision in order, and
  \<open>include_deprecated = False\<close> hides DISABLED revisions.
\<close>

lemma select_revisions_default:
  "select_revisions default_filter_params trs tbl = sort_key order_key trs"
proof -
  have "phase1_match default_filter_params r" for r
    by (simp add: phase1_match_def default_filter_params_def)
  then show ?thesis
    by (simp add: select_revisions_def select_base_def default_filter_params_def)
qed

lemma select_revisions_not_deprecated:
  assumes "\<not> include_deprecated fp" and "fp_state fp = None"
    and "r \<in> set (select_revisions fp trs tbl)"
  shows "state r \<noteq> DISABLED"
  using assms
  by (auto simp: set_select_revisions select_base_def select_dependencies_def phase1_match_def
      split: if_splits)

lemma tr_dependency:
  assumes "w \<in> set base" and "type w = WORKFLOW"
    and "Descendant d t o_id \<in> set (descendants tbl (tr_id w))"
  shows "t \<in> set (dependency_ids tbl base)"
  using assms by (force simp: dependency_ids_def)

lemma select_revisions_dependencies:
  assumes ids: "distinct (map tr_id trs)"
    and deps: "include_dependencies fp" and w: "w \<in> set (select_base fp trs tbl)"
    and wf: "type w = WORKFLOW"
    and fresh: "set (descendants tbl (tr_id w)) = desc_of ` {(d, n). nests trs (tr_id w) d n}"
    and nest: "nests trs (tr_id w) d n"
    and x: "find_tr trs (op_transformation_id n) = Some x" and live: "state x \<noteq> DISABLED"
  shows "x \<in> set (select_revisions fp trs tbl)"
proof -
  have "Descendant d (op_transformation_id n) (op_id n) \<in> set (descendants tbl (tr_id w))"
    using fresh nest by (force simp: desc_of_def)
  then have "op_transformation_id n \<in> set (dependency_ids tbl (select_base fp trs tbl))"
    using w wf by (rule tr_dependency [rotated 2])
  moreover have x_in: "x \<in> set trs" "tr_id x = op_transformation_id n" using x by auto
  moreover have "tr_id x \<in> set (map tr_id (select_base fp trs tbl)) \<Longrightarrow> x \<in> set (select_base fp trs tbl)"
  proof -
    assume "tr_id x \<in> set (map tr_id (select_base fp trs tbl))"
    then obtain y where y: "y \<in> set (select_base fp trs tbl)" "tr_id y = tr_id x" by auto
    then have "y \<in> set trs" by (simp add: select_base_def)
    with ids x_in(1) y(2) have "y = x" by (auto simp: distinct_map dest: inj_onD)
    with y(1) show ?thesis by simp
  qed
  ultimately show ?thesis
    using deps live by (auto simp: set_select_revisions select_dependencies_def)
qed

lemma is_unused_ancestors:
  "is_unused trs tbl r \<longleftrightarrow>
     (\<forall>w \<in> set (ancestors tbl (tr_id r)). \<forall>wr. find_tr trs w = Some wr \<longrightarrow> state wr = DISABLED)"
  by (auto simp: is_unused_def ancestors_def list_all_iff nesting_workflow_def split: option.splits)

end
