(* ===== verification/Spec2Isabelle.thy ===== *)
theory Spec2Isabelle
  imports Store Queries
begin

text \<open>
  \<^bold>\<open>Transformation revisions and their nesting closure (hetida designer).\<close>

  The repository's source under \<open>src/\<close> is
  \<open>src/runtime/hetdesrun/persistence/dbmodels.py\<close>: the SQLAlchemy models of the
  table \<open>transformation_revisions\<close> (\<open>TransformationRevisionDBModel\<close>), of the
  closure table \<open>nestings\<close> (\<open>NestingDBModel\<close>), the query parameters
  \<open>FilterParams\<close> and the result tuple \<open>Descendant\<close>. The code that uses them
  (the revision store's operations, the closure maintenance and the filter query,
  spec sections 4.1 to 4.3) lives elsewhere in the repository and is modelled from
  the spec. The parts interact one way: a write to a revision triggers the rebuild of
  that workflow's closure rows; queries read both tables.

  \<^bold>\<open>Theories.\<close>
  \<^item> \<open>Prelude\<close>: identifiers, the error taxonomy of spec section 7, the result type
    \<open>error + 'a\<close> with \<open>rbind\<close>, tables as lists of rows with lookup
    (\<open>find_key\<close>) and update (\<open>replace_key\<close>) by key.
  \<^item> \<open>Revisions\<close>: \<open>TransformationRevisionDBModel\<close> (lines 64--103) as the record
    \<open>transformation_revision\<close>; its unique constraint (\<open>group_tag\<close>), its check
    constraint (\<open>exactly_one_of_content_cc\<close>, the SQL \<open>CASE\<close> sum written out) and
    primary key; the INSERT (\<open>insert_tr\<close>) and UPDATE (\<open>update_tr\<close>) that enforce
    them, raising \<open>IntegrityError\<close> with the constraint's name. The JSON column
    \<open>workflow_content\<close> is abstracted to its list of operators.
  \<^item> \<open>Nestings\<close>: \<open>NestingDBModel\<close> (lines 106--167) as the record \<open>nesting\<close>
    with \<open>depth :: int\<close> (an SQL Integer), its composite primary key
    (\<open>nesting_pk\<close>), the two check constraints, the three foreign keys, the INSERT
    (\<open>insert_nesting\<close>, \<open>insert_nestings\<close> for a flush of several rows);
    \<open>Descendant\<close> (lines 170--173) as a datatype.
  \<^item> \<open>Closure\<close> (spec 4.2, modelled from the spec): the depth-first traversal
    \<open>nested_of\<close>/\<open>nested_ops\<close> with the path of revisions being expanded (cycle
    detection) and lookup of every operator's revision (\<open>NotFound\<close>); its
    termination is proved with the number of stored ids off the path as measure, so
    no fuel is needed. \<open>closure_rows\<close> builds the rows of one workflow,
    \<open>rebuild_nesting\<close> replaces them all or nothing, \<open>descendants\<close> and
    \<open>ancestors\<close> are the queries. \<open>nests\<close> is the abstract specification, the
    reachability relation over stored contents.
  \<^item> \<open>Store\<close> (spec 4.1, modelled from the spec): the state \<open>db\<close> (both tables
    and a clock), \<open>create\<close>, \<open>release\<close>, \<open>disable\<close>, \<open>update_content\<close>, each
    committing the closure rebuild of a workflow in the same transaction
    (\<open>commit\<close>); \<open>run_op\<close> is the transaction that keeps the old state on error;
    \<open>db_step\<close> and \<open>reachable\<close> the store's state machine; \<open>db_inv\<close> its
    invariant.
  \<^item> \<open>Queries\<close> (\<open>FilterParams\<close>, lines 25--61, as the record \<open>filter_params\<close>
    with \<open>default_filter_params\<close>; the query engine of spec 4.3 modelled from the
    spec): phase-1 predicates (\<open>phase1_match\<close>), the \<open>unused\<close> restriction through
    the relationship \<open>nesting_workflow\<close>, dependency expansion through
    \<open>descendants\<close> (\<open>select_dependencies\<close>), the ordered result
    (\<open>select_revisions\<close>).
  \<^item> \<open>Spec2Isabelle\<close> (this theory): concrete stores and the scenarios of spec
    section 8, the findings, and the witnesses of the conditional properties.

  \<^bold>\<open>What the lemmas show.\<close>
  Revisions/Nestings: the SQL check constraints are equivalent to their intended
  logical reading (C4, C5); INSERT and UPDATE keep a table well-formed (C17) and
  every rejection branch is characterised with the constraint it names (C8, C10, C18
  to C23), in the order the database evaluates them (checks, then keys, then
  foreign keys); a multi-row flush fails exactly when a row does (C20); lookups after
  writes (C9) and re-saving an inserted row (C25); the ORM relationships of a stored
  nestings row always load (C16).
  Closure: the traversal terminates (by the measure, no fuel); what a successful
  rebuild stores is exactly the reachability relation \<open>nests\<close> (refinement, C1);
  every failure is a cycle, an unknown id or the primary key (C3); rebuilding is
  idempotent (C6) and leaves other workflows' rows alone (C12).
  Store: the invariant \<open>db_inv\<close> (both tables well-formed, contents match types,
  every referenced id stored, closure rows meet all constraints) holds in every
  reachable state (C13, by rule induction over \<open>reachable\<close>); a step moves a
  revision's state only forward (C14) and never resets a timestamp or the content of
  a non-DRAFT revision (C15); an update that makes a workflow nest itself is
  rejected and leaves the store unchanged (C2).
  Queries: with \<open>unused\<close>, a returned revision is nested in no active workflow
  whose closure is current (C24); results are sorted and duplicate-free, and the
  dependency expansion returns the live revisions a selected workflow reaches.
  Findings: the primary key of \<open>nestings\<close> rejects the closure of every workflow
  whose direct child instantiates one revision twice, although nothing is cyclic
  (C7); a content update leaves the closure of the workflows that nest the updated
  one untouched, so it goes stale (C11); the check constraint of
  \<open>transformation_revisions\<close> does not tie the content to the type; the
  \<open>Field\<close> descriptions of \<open>include_deprecated\<close> and \<open>include_dependencies\<close> are
  swapped with respect to the spec, whose reading \<open>Queries\<close> follows.

  \<^bold>\<open>Open.\<close> Deletion guards via \<open>ancestors\<close> are not modelled because the spec
  names them without an operation; the value types \<open>ValidStr\<close> and
  \<open>NonEmptyValidStr\<close> of \<open>FilterParams\<close> are plain strings.

  \<^bold>\<open>Not modelled.\<close> The execution engine, the HTTP layer, authentication and
  serialisation (spec section 1); the JSON payloads \<open>io_interface\<close> and
  \<open>test_wiring\<close> are opaque strings; concurrency is reduced to the serial order of
  whole transactions (\<open>run_op\<close>), which is what the spec's single-writer discipline
  guarantees.
\<close>

definition opr :: "uuid \<Rightarrow> uuid \<Rightarrow> operator" where
  "opr o_id t_id = \<lparr>op_id = o_id, op_transformation_id = t_id\<rparr>"

definition mk_rev :: "uuid \<Rightarrow> Type \<Rightarrow> operator list option \<Rightarrow> string option \<Rightarrow> transformation_revision" where
  "mk_rev i t wc cc =
     \<lparr>tr_id = i, revision_group_id = i, name = ''n'', description = '''',
      category = ''c'', version_tag = ''1.0.0'', state = DRAFT, type = t, documentation = '''',
      workflow_content = wc, component_code = cc, io_interface = ''{}'', test_wiring = ''{}'',
      released_timestamp = None, disabled_timestamp = None\<rparr>"

text \<open>Scenario 1 of spec section 8: workflow 10 with component 1 as operator 100.\<close>

definition ex_c1 :: transformation_revision where
  "ex_c1 = mk_rev 1 COMPONENT None (Some ''code'')"

definition ex_w :: transformation_revision where
  "ex_w = mk_rev 10 WORKFLOW (Some [opr 100 1]) None"

definition ex_rows :: nesting_table where
  "ex_rows = [mk_nesting 10 (opr 100 1) 1 (opr 100 1)]"

text \<open>A workflow 20 whose only operator is an instance of itself.\<close>

definition ex_self :: transformation_revision where
  "ex_self = mk_rev 20 WORKFLOW (Some [opr 200 20]) None"

text \<open>
  Workflow 30 contains workflow 31 as operator 300; 31 contains workflow 32 twice, as
  operators 310 and 311; 32 contains component 1 as operator 320. Nothing is cyclic.
\<close>

definition pk_store :: tr_table where
  "pk_store =
     [ex_c1,
      mk_rev 32 WORKFLOW (Some [opr 320 1]) None,
      mk_rev 31 WORKFLOW (Some [opr 310 32, opr 311 32]) None,
      mk_rev 30 WORKFLOW (Some [opr 300 31]) None]"

text \<open>The store after creating component 1 and workflow 10, and after releasing 10.\<close>

definition ex_db :: db where
  "ex_db = \<lparr>revisions = [ex_c1, ex_w], nestings = ex_rows, now = 2\<rparr>"

definition ex_db_released :: db where
  "ex_db_released =
     \<lparr>revisions = [ex_c1, ex_w\<lparr>state := RELEASED, released_timestamp := Some 2\<rparr>],
      nestings = ex_rows, now = 3\<rparr>"

text \<open>
  The store after creating component 1, workflow 50 (component 1 as operator 500)
  and workflow 51 (workflow 50 as operator 510).
\<close>

definition ex_t :: transformation_revision where
  "ex_t = mk_rev 50 WORKFLOW (Some [opr 500 1]) None"

definition ex_outer :: transformation_revision where
  "ex_outer = mk_rev 51 WORKFLOW (Some [opr 510 50]) None"

definition ex_nest_db :: db where
  "ex_nest_db = snd (run_ops empty_db [Create ex_c1, Create ex_t, Create ex_outer])"

text \<open>Single rows of \<open>nestings\<close> used to exercise the constraints one at a time.\<close>

definition ex_nesting :: "uuid \<Rightarrow> uuid \<Rightarrow> int \<Rightarrow> nesting" where
  "ex_nesting w t d =
     \<lparr>workflow_id = w, via_transformation_id = t, via_operator_id = 100, depth = d,
      nested_transformation_id = t, nested_operator_id = 100\<rparr>"





subsection \<open>Witnesses\<close>

lemma ex_rebuild: "rebuild_nesting [ex_c1, ex_w] [] 10 = Inr ex_rows"
  by code_simp

theorem rebuild_nesting_descendants_witness:
  "rebuild_nesting [ex_c1, ex_w] [] 10 = Inr ex_rows \<and>
   set (descendants ex_rows 10) = desc_of ` {(d, n). nests [ex_c1, ex_w] 10 d n}"
  using Closure.rebuild_nesting_descendants [OF ex_rebuild] ex_rebuild by simp

theorem rebuild_nesting_errors_witness:
  "rebuild_nesting [ex_self] [] 20 = Inl CyclicDependencyError \<and> 20 \<in> set (map tr_id [ex_self]) \<and>
   (CyclicDependencyError = CyclicDependencyError \<or>
    (\<exists>x. CyclicDependencyError = NotFound x \<and> x \<notin> set (map tr_id [ex_self])) \<or>
    CyclicDependencyError = IntegrityError ''nestings_pkey'')"
proof -
  have h: "rebuild_nesting [ex_self] [] 20 = Inl CyclicDependencyError"
    and m: "20 \<in> set (map tr_id [ex_self])"
    by code_simp+
  show ?thesis using Closure.rebuild_nesting_errors [OF h m] h m by blast
qed

theorem rebuild_nesting_idempotent_witness:
  "rebuild_nesting [ex_c1, ex_w] [] 10 = Inr ex_rows \<and>
   rebuild_nesting [ex_c1, ex_w] ex_rows 10 = Inr ex_rows"
  using Closure.rebuild_nesting_idempotent [OF ex_rebuild] ex_rebuild by simp

theorem rebuild_nesting_other_witness:
  "rebuild_nesting [ex_c1, ex_w] [] 10 = Inr ex_rows \<and> (1::uuid) \<noteq> 10 \<and>
   descendants ex_rows 1 = descendants [] 1"
  using Closure.rebuild_nesting_other [OF ex_rebuild, of 1] ex_rebuild by simp

theorem insert_tr_group_tag_violation_witness:
  "tr_table_ok [ex_c1] \<and> ex_c1 \<in> set [ex_c1] \<and> tr_id (ex_c1\<lparr>tr_id := 2\<rparr>) \<notin> set (map tr_id [ex_c1]) \<and>
   exactly_one_of_content_cc (ex_c1\<lparr>tr_id := 2\<rparr>) \<and> group_tag (ex_c1\<lparr>tr_id := 2\<rparr>) = group_tag ex_c1 \<and>
   insert_tr [ex_c1] (ex_c1\<lparr>tr_id := 2\<rparr>) =
     Inl (IntegrityError ''_revision_group_id_plus_version_tag_uc'')"
proof -
  have h: "tr_table_ok [ex_c1]" "ex_c1 \<in> set [ex_c1]" "tr_id (ex_c1\<lparr>tr_id := 2\<rparr>) \<notin> set (map tr_id [ex_c1])"
    "exactly_one_of_content_cc (ex_c1\<lparr>tr_id := 2\<rparr>)" "group_tag (ex_c1\<lparr>tr_id := 2\<rparr>) = group_tag ex_c1"
    by code_simp+
  show ?thesis using h Revisions.insert_tr_group_tag_violation [OF h] by blast
qed

theorem find_tr_insert_witness:
  "insert_tr [ex_c1] ex_w = Inr [ex_c1, ex_w] \<and> find_tr [ex_c1, ex_w] 10 = Some ex_w \<and>
   find_tr [ex_c1, ex_w] 1 = find_tr [ex_c1] 1"
proof -
  have h: "insert_tr [ex_c1] ex_w = Inr [ex_c1, ex_w]" by code_simp
  have "tr_id ex_w = 10" "tr_id ex_w \<noteq> 1" by code_simp+
  then show ?thesis
    using h Revisions.find_tr_insert [OF h, of 10] Revisions.find_tr_insert [OF h, of 1] by simp
qed

lemma ex_db_reachable: "reachable ex_db"
proof -
  have s1: "apply_op empty_db (Create ex_c1) = Inr \<lparr>revisions = [ex_c1], nestings = [], now = 1\<rparr>"
    by code_simp
  have s2: "apply_op \<lparr>revisions = [ex_c1], nestings = [], now = 1\<rparr> (Create ex_w) = Inr ex_db"
    by code_simp
  show ?thesis
    by (rule reachable.step [OF reachable.step [OF reachable.init db_step.intros [OF s1]]
          db_step.intros [OF s2]])
qed

lemma ex_db_step: "db_step ex_db ex_db_released"
  by (rule db_step.intros [of _ "Release 10"]) code_simp

lemma ex_db_find: "find_tr (revisions ex_db) 10 = Some ex_w"
  by code_simp

theorem reachable_db_inv_witness: "reachable ex_db \<and> db_inv ex_db"
  using Store.reachable_db_inv [OF ex_db_reachable] ex_db_reachable by blast

theorem db_step_state_forward_witness:
  "db_step ex_db ex_db_released \<and> find_tr (revisions ex_db) 10 = Some ex_w \<and>
   (\<exists>r'. find_tr (revisions ex_db_released) 10 = Some r' \<and>
     (state r' = state ex_w \<or> (state ex_w = DRAFT \<and> state r' = RELEASED) \<or>
      (state ex_w = RELEASED \<and> state r' = DISABLED)))"
  using Store.db_step_state_forward [OF ex_db_step ex_db_find] ex_db_step ex_db_find by blast

theorem db_step_released_frozen_witness:
  "db_inv ex_db \<and> db_step ex_db ex_db_released \<and> find_tr (revisions ex_db) 10 = Some ex_w \<and>
   (\<exists>r'. find_tr (revisions ex_db_released) 10 = Some r' \<and>
    (released_timestamp ex_w \<noteq> None \<longrightarrow> released_timestamp r' = released_timestamp ex_w) \<and>
    (disabled_timestamp ex_w \<noteq> None \<longrightarrow> disabled_timestamp r' = disabled_timestamp ex_w) \<and>
    (state ex_w \<noteq> DRAFT \<longrightarrow>
       workflow_content r' = workflow_content ex_w \<and> component_code r' = component_code ex_w))"
proof -
  have inv: "db_inv ex_db" by code_simp
  show ?thesis
    using Store.db_step_released_frozen [OF inv ex_db_step ex_db_find] inv ex_db_step ex_db_find
    by blast
qed

theorem update_content_cyclic_witness:
  "db_inv ex_db \<and> find_tr (revisions ex_db) 10 = Some ex_w \<and> state ex_w = DRAFT \<and>
   type ex_w = WORKFLOW \<and>
   nests (replace_key tr_id (ex_w\<lparr>workflow_content := Some [opr 101 10]\<rparr>) (revisions ex_db)) 10 1
     (opr 101 10) \<and>
   op_transformation_id (opr 101 10) = 10 \<and>
   run_op ex_db (UpdateContent 10 (WorkflowOperators [opr 101 10])) =
     (Some CyclicDependencyError, ex_db)"
proof -
  have h: "db_inv ex_db" "state ex_w = DRAFT" "type ex_w = WORKFLOW"
    "\<forall>c \<in> set [opr 101 10]. op_transformation_id c \<in> set (map tr_id (revisions ex_db))"
    "op_transformation_id (opr 101 10) = 10"
    by code_simp+
  have n: "nests (replace_key tr_id (ex_w\<lparr>workflow_content := Some [opr 101 10]\<rparr>) (revisions ex_db)) 10 1
     (opr 101 10)"
    by (rule nests.direct [of _ _ "ex_w\<lparr>workflow_content := Some [opr 101 10]\<rparr>"]) code_simp+
  show ?thesis
    using Store.update_content_cyclic [OF h(1) ex_db_find h(2,3,4) n h(5)] h n ex_db_find by blast
qed

theorem update_tr_group_tag_violation_witness:
  "tr_table_ok [ex_c1, ex_w] \<and> ex_c1 \<in> set [ex_c1, ex_w] \<and>
   tr_id (ex_w\<lparr>revision_group_id := 1\<rparr>) \<in> set (map tr_id [ex_c1, ex_w]) \<and>
   tr_id ex_c1 \<noteq> tr_id (ex_w\<lparr>revision_group_id := 1\<rparr>) \<and>
   exactly_one_of_content_cc (ex_w\<lparr>revision_group_id := 1\<rparr>) \<and>
   group_tag (ex_w\<lparr>revision_group_id := 1\<rparr>) = group_tag ex_c1 \<and>
   update_tr [ex_c1, ex_w] (ex_w\<lparr>revision_group_id := 1\<rparr>) =
     Inl (IntegrityError ''_revision_group_id_plus_version_tag_uc'')"
proof -
  have h: "tr_table_ok [ex_c1, ex_w]" "ex_c1 \<in> set [ex_c1, ex_w]"
    "tr_id (ex_w\<lparr>revision_group_id := 1\<rparr>) \<in> set (map tr_id [ex_c1, ex_w])"
    "tr_id ex_c1 \<noteq> tr_id (ex_w\<lparr>revision_group_id := 1\<rparr>)"
    "exactly_one_of_content_cc (ex_w\<lparr>revision_group_id := 1\<rparr>)"
    "group_tag (ex_w\<lparr>revision_group_id := 1\<rparr>) = group_tag ex_c1"
    by code_simp+
  show ?thesis using h Revisions.update_tr_group_tag_violation [OF h] by blast
qed

theorem nesting_relationships_resolve_witness:
  "nesting_table_ok [ex_c1, ex_w] ex_rows \<and> hd ex_rows \<in> set ex_rows \<and>
   (\<exists>w. nesting_workflow [ex_c1, ex_w] (hd ex_rows) = Some w \<and> tr_id w = workflow_id (hd ex_rows)) \<and>
   (\<exists>v. nesting_via_transformation [ex_c1, ex_w] (hd ex_rows) = Some v \<and>
      tr_id v = via_transformation_id (hd ex_rows)) \<and>
   (\<exists>m. nesting_nested_transformation [ex_c1, ex_w] (hd ex_rows) = Some m \<and>
      tr_id m = nested_transformation_id (hd ex_rows))"
proof -
  have h: "nesting_table_ok [ex_c1, ex_w] ex_rows" "hd ex_rows \<in> set ex_rows"
    by code_simp+
  show ?thesis using Nestings.nesting_relationships_resolve [OF h] h by blast
qed

theorem tr_writes_preserve_ok_witness:
  "tr_table_ok [ex_c1] \<and> insert_tr [ex_c1] ex_w = Inr [ex_c1, ex_w] \<and> tr_table_ok [ex_c1, ex_w] \<and>
   update_tr [ex_c1] (ex_c1\<lparr>name := ''m''\<rparr>) = Inr [ex_c1\<lparr>name := ''m''\<rparr>] \<and>
   tr_table_ok [ex_c1\<lparr>name := ''m''\<rparr>]"
proof -
  have h: "tr_table_ok [ex_c1]" "insert_tr [ex_c1] ex_w = Inr [ex_c1, ex_w]"
    "update_tr [ex_c1] (ex_c1\<lparr>name := ''m''\<rparr>) = Inr [ex_c1\<lparr>name := ''m''\<rparr>]"
    by code_simp+
  show ?thesis
    using Revisions.tr_writes_preserve_ok [OF h(1), of ex_w "[ex_c1, ex_w]"]
      Revisions.tr_writes_preserve_ok [OF h(1), of "ex_c1\<lparr>name := ''m''\<rparr>" _ "[ex_c1\<lparr>name := ''m''\<rparr>]"] h
    by blast
qed

theorem insert_nesting_via_mismatch_witness:
  "nesting_pk (ex_nesting 10 1 2) \<notin> set (map nesting_pk ex_rows) \<and> 0 < depth (ex_nesting 10 1 2) \<and>
   insert_nesting [ex_c1, ex_w] ex_rows (ex_nesting 10 1 2) =
     Inl (IntegrityError ''_via_ids_equal_nested_ids_for_direct_nesting_cc'')"
proof -
  have h: "nesting_pk (ex_nesting 10 1 2) \<notin> set (map nesting_pk ex_rows)" "0 < depth (ex_nesting 10 1 2)"
    "(depth (ex_nesting 10 1 2) = 1) \<noteq>
      ((via_transformation_id (ex_nesting 10 1 2), via_operator_id (ex_nesting 10 1 2)) =
       (nested_transformation_id (ex_nesting 10 1 2), nested_operator_id (ex_nesting 10 1 2)))"
    by code_simp+
  show ?thesis using Nestings.insert_nesting_via_mismatch [OF h(2,3)] h by blast
qed

theorem insert_nesting_fk_violation_witness:
  "nesting_pk (ex_nesting 7 1 1) \<notin> set (map nesting_pk ex_rows) \<and>
   depth_natural_number_cc (ex_nesting 7 1 1) \<and> via_ids_equal_nested_ids_cc (ex_nesting 7 1 1) \<and>
   workflow_id (ex_nesting 7 1 1) \<notin> set (map tr_id [ex_c1, ex_w]) \<and>
   insert_nesting [ex_c1, ex_w] ex_rows (ex_nesting 7 1 1) = Inl (IntegrityError ''nestings_fkey'')"
proof -
  have h: "nesting_pk (ex_nesting 7 1 1) \<notin> set (map nesting_pk ex_rows)"
    "depth_natural_number_cc (ex_nesting 7 1 1)" "via_ids_equal_nested_ids_cc (ex_nesting 7 1 1)"
    "workflow_id (ex_nesting 7 1 1) \<notin> set (map tr_id [ex_c1, ex_w])"
    by code_simp+
  show ?thesis using Nestings.insert_nesting_fk_violation [OF h(1-3)] h by blast
qed

theorem insert_nestings_fails_iff_witness:
  "isl (insert_nestings [ex_c1, ex_w] ex_rows ex_rows) \<and>
   \<not> isl (insert_nestings [ex_c1, ex_w] [] ex_rows)"
proof -
  have a: "nesting_pk ` set ex_rows \<inter> nesting_pk ` set ex_rows \<noteq> {}"
    and b: "distinct (map nesting_pk ex_rows)" "nesting_pk ` set ex_rows \<inter> nesting_pk ` set [] = {}"
      "\<forall>n \<in> set ex_rows. nesting_row_ok [ex_c1, ex_w] n"
    by code_simp+
  show ?thesis
    using Nestings.insert_nestings_fails_iff [of "[ex_c1, ex_w]" ex_rows ex_rows]
      Nestings.insert_nestings_fails_iff [of "[ex_c1, ex_w]" "[]" ex_rows] a b
    by blast
qed

theorem insert_tr_content_violation_witness:
  "tr_id (mk_rev 3 COMPONENT None None) \<notin> set (map tr_id [ex_c1]) \<and>
   insert_tr [ex_c1] (mk_rev 3 COMPONENT None None) =
     Inl (IntegrityError ''_exactly_one_of_component_code_or_workflow_content_null_cc'')"
proof -
  have h: "tr_id (mk_rev 3 COMPONENT None None) \<notin> set (map tr_id [ex_c1])"
    "(component_code (mk_rev 3 COMPONENT None None) = None) =
     (workflow_content (mk_rev 3 COMPONENT None None) = None)"
    by code_simp+
  show ?thesis using Revisions.insert_tr_content_violation [OF h(2)] h by blast
qed

theorem insert_nesting_depth_violation_witness:
  "nesting_pk (ex_nesting 10 1 0) \<notin> set (map nesting_pk ex_rows) \<and> depth (ex_nesting 10 1 0) < 1 \<and>
   insert_nesting [ex_c1, ex_w] ex_rows (ex_nesting 10 1 0) =
     Inl (IntegrityError ''_depth_natural_number_cc'')"
proof -
  have h: "nesting_pk (ex_nesting 10 1 0) \<notin> set (map nesting_pk ex_rows)" "depth (ex_nesting 10 1 0) < 1"
    by code_simp+
  show ?thesis using Nestings.insert_nesting_depth_violation [OF h(2)] h by blast
qed

theorem insert_nesting_pk_violation_witness:
  "depth_natural_number_cc (hd ex_rows\<lparr>nested_transformation_id := 7, via_transformation_id := 7\<rparr>) \<and>
   via_ids_equal_nested_ids_cc (hd ex_rows\<lparr>nested_transformation_id := 7, via_transformation_id := 7\<rparr>) \<and>
   hd ex_rows \<in> set ex_rows \<and>
   insert_nesting [ex_c1, ex_w] ex_rows
     (hd ex_rows\<lparr>nested_transformation_id := 7, via_transformation_id := 7\<rparr>) =
     Inl (IntegrityError ''nestings_pkey'')"
proof -
  have h: "depth_natural_number_cc (hd ex_rows\<lparr>nested_transformation_id := 7, via_transformation_id := 7\<rparr>)"
    "via_ids_equal_nested_ids_cc (hd ex_rows\<lparr>nested_transformation_id := 7, via_transformation_id := 7\<rparr>)"
    "hd ex_rows \<in> set ex_rows"
    by code_simp+
  show ?thesis using Nestings.insert_nesting_pk_violation [OF h] h by simp
qed

theorem insert_then_update_tr_witness:
  "tr_table_ok [ex_c1] \<and> insert_tr [ex_c1] ex_w = Inr [ex_c1, ex_w] \<and>
   update_tr [ex_c1, ex_w] (ex_w\<lparr>workflow_content := Some []\<rparr>) =
     Inr [ex_c1, ex_w\<lparr>workflow_content := Some []\<rparr>]"
proof -
  have h: "tr_table_ok [ex_c1]" "insert_tr [ex_c1] ex_w = Inr [ex_c1, ex_w]"
    "tr_id (ex_w\<lparr>workflow_content := Some []\<rparr>) = tr_id ex_w"
    "group_tag (ex_w\<lparr>workflow_content := Some []\<rparr>) = group_tag ex_w"
    "exactly_one_of_content_cc (ex_w\<lparr>workflow_content := Some []\<rparr>)"
    by code_simp+
  show ?thesis using Revisions.insert_then_update_tr [OF h] h by simp
qed

theorem closure_pk_collision_witness:
  "find_tr pk_store 30 = Some (mk_rev 30 WORKFLOW (Some [opr 300 31]) None) \<and>
   find_tr pk_store 31 = Some (mk_rev 31 WORKFLOW (Some [opr 310 32, opr 311 32]) None) \<and>
   find_tr pk_store 32 = Some (mk_rev 32 WORKFLOW (Some [opr 320 1]) None) \<and>
   (\<exists>rows. closure_rows pk_store 30 [opr 300 31] = Inr rows) \<and>
   rebuild_nesting pk_store [] 30 = Inl (IntegrityError ''nestings_pkey'')"
proof -
  have f: "find_tr pk_store 30 = Some (mk_rev 30 WORKFLOW (Some [opr 300 31]) None)"
    "find_tr pk_store 31 = Some (mk_rev 31 WORKFLOW (Some [opr 310 32, opr 311 32]) None)"
    "find_tr pk_store 32 = Some (mk_rev 32 WORKFLOW (Some [opr 320 1]) None)"
    by code_simp+
  have h: "opr 300 31 \<in> set (content_of (mk_rev 30 WORKFLOW (Some [opr 300 31]) None))"
    "op_transformation_id (opr 300 31) = 31"
    "opr 310 32 \<in> set (content_of (mk_rev 31 WORKFLOW (Some [opr 310 32, opr 311 32]) None))"
    "opr 311 32 \<in> set (content_of (mk_rev 31 WORKFLOW (Some [opr 310 32, opr 311 32]) None))"
    "opr 310 32 \<noteq> opr 311 32" "op_transformation_id (opr 310 32) = op_transformation_id (opr 311 32)"
    "op_transformation_id (opr 310 32) = 32"
    "content_of (mk_rev 32 WORKFLOW (Some [opr 320 1]) None) \<noteq> []"
    "content_of (mk_rev 30 WORKFLOW (Some [opr 300 31]) None) = [opr 300 31]"
    by code_simp+
  have "\<not> isl (closure_rows pk_store 30 [opr 300 31])" by code_simp
  then obtain rows where rows: "closure_rows pk_store 30 [opr 300 31] = Inr rows"
    by (cases "closure_rows pk_store 30 [opr 300 31]") auto
  have m: "find_tr pk_store (op_transformation_id (opr 300 31)) =
      Some (mk_rev 31 WORKFLOW (Some [opr 310 32, opr 311 32]) None)"
    and x: "find_tr pk_store (op_transformation_id (opr 310 32)) =
      Some (mk_rev 32 WORKFLOW (Some [opr 320 1]) None)"
    by code_simp+
  have rows': "closure_rows pk_store 30 (content_of (mk_rev 30 WORKFLOW (Some [opr 300 31]) None)) = Inr rows"
    using rows h(9) by simp
  have "rebuild_nesting pk_store [] 30 = Inl (IntegrityError ''nestings_pkey'')"
    by (rule Closure.closure_pk_collision [OF f(1) h(1) m h(3,4,5,6) x h(8) rows'])
  then show ?thesis using f rows by blast
qed

theorem update_content_other_rows_witness:
  "(\<exists>s'. update_content ex_nest_db 50 (WorkflowOperators []) = Inr s' \<and>
     filter (\<lambda>n. workflow_id n = 51) (nestings s') = filter (\<lambda>n. workflow_id n = 51) (nestings ex_nest_db)) \<and>
   descendants (nestings ex_nest_db) 51 = [Descendant 1 50 510, Descendant 2 1 500]"
proof -
  have "\<not> isl (update_content ex_nest_db 50 (WorkflowOperators []))" by code_simp
  then obtain s' where s': "update_content ex_nest_db 50 (WorkflowOperators []) = Inr s'"
    by (cases "update_content ex_nest_db 50 (WorkflowOperators [])") auto
  have d: "descendants (nestings ex_nest_db) 51 = [Descendant 1 50 510, Descendant 2 1 500]"
    by code_simp
  show ?thesis using Store.update_content_other_rows [OF s', of 51] s' d by auto
qed



end
